theory Spec2Isabelle
  imports Main "HOL-Library.Multiset"
begin

section \<open>Python and numpy primitives used by the sources\<close>

text \<open>
  The sources are Python over numpy arrays. Python integers are unbounded and are
  modelled as \<open>int\<close>; Isabelle's \<open>div\<close> on \<open>int\<close> rounds towards minus
  infinity, as Python's \<open>//\<close> does. Every \<open>raise\<close> of the interpreter that the
  modelled code can reach is a value of \<open>error\<close>, and a function that can raise
  returns \<open>error + 'a\<close>.
\<close>

datatype error = TypeError | ValueError | IndexError | ZeroDivisionError

type_synonym int3 = "int \<times> int \<times> int"

text \<open>\<open>a // b\<close>: raises on a zero divisor.\<close>

definition floordiv :: "int \<Rightarrow> int \<Rightarrow> error + int" where
  "floordiv a b = (if b = 0 then Inl ZeroDivisionError else Inr (a div b))"

text \<open>\<open>range(lo, hi)\<close>.\<close>

definition py_range :: "int \<Rightarrow> int \<Rightarrow> int list" where
  "py_range lo hi = map (\<lambda>k. lo + int k) [0..<nat (hi - lo)]"

section \<open>\<open>src/data/util/tile.py\<close>: \<open>read_tile_h5_by_bbox\<close>, block addressing\<close>

text \<open>
  Lines 195 to 198: the range of z-block indices \<open>range(d0, d1)\<close> visited by the
  outer loop. \<open>z0\<close>, \<open>z1\<close> are the requested z-range, \<open>sz0 = zyx_sz[0]\<close>,
  \<open>o0 = zyx0[0]\<close> and \<open>zz = [zz[0], zz[1], zz[2]]\<close>.
\<close>

definition z_block_range :: "int \<Rightarrow> int \<Rightarrow> int \<Rightarrow> int \<Rightarrow> int3 \<Rightarrow> error + (int \<times> int)" where
  "z_block_range z0 z1 sz0 o0 zz =
     (case zz of (zz0, zz1, zz2) \<Rightarrow>
        (case floordiv (max 0 (z0 - o0 - zz0)) sz0 of
           Inl e \<Rightarrow> Inl e
         | Inr d0 \<Rightarrow>
            (case floordiv (z1 - o0 - zz0 + sz0 - 1) sz0 of
               Inl e \<Rightarrow> Inl e
             | Inr d1 \<Rightarrow> Inr (d0, if zz2 > 0 then min zz2 d1 else d1))))"

text \<open>
  Lines 202 to 210: the world-space z-extent \<open>[zp0, zp1)\<close> that the loop body assigns to
  z-block \<open>zid\<close>.
\<close>

definition z_extent :: "int \<Rightarrow> int \<Rightarrow> int3 \<Rightarrow> int \<Rightarrow> int \<times> int" where
  "z_extent sz0 o0 zz zid =
     (case zz of (zz0, zz1, zz2) \<Rightarrow>
        let zp0 = zid * sz0 + o0;
            zp0 = (if zid \<noteq> 0 then zp0 + zz0 else zp0);
            zp1 = (zid + 1) * sz0 + o0;
            zp1 = zp1 + zz0;
            zp1 = (if zid = zz2 then zp1 + zz1 else zp1)
        in (zp0, zp1))"

section \<open>\<open>src/util/bbox.py\<close>: \<open>merge_bbox_two_matrices\<close>\<close>

text \<open>
  A box matrix is a numpy integer matrix with one row per instance,
  \<open>[id, min, max, min, max, ...]\<close>; it is modelled as the list of its rows. The
  arguments of \<open>merge_bbox_two_matrices\<close> may be \<open>None\<close>.
\<close>

type_synonym row = "int list"
type_synonym table = "row list"

text \<open>
  Modelled from the spec: \<open>merge_bbox\<close> is called at line 211 of \<open>bbox.py\<close> and is
  not defined in the sources. The spec (4.2, \<open>merge_box_pair\<close>) gives its contract: the
  elementwise minimum of the minimums and maximum of the maximums of two boxes
  \<open>[min, max, min, max, ...]\<close>.
\<close>

fun merge_bbox :: "int list \<Rightarrow> int list \<Rightarrow> int list" where
  "merge_bbox (a0 # a1 # as) (b0 # b1 # bs) = min a0 b0 # max a1 b1 # merge_bbox as bs"
| "merge_bbox _ _ = []"

text \<open>\<open>np.in1d(a, b)\<close>: for each element of \<open>a\<close>, whether it occurs in \<open>b\<close>.\<close>

definition in1d :: "int list \<Rightarrow> int list \<Rightarrow> bool list" where
  "in1d a b = map (\<lambda>x. x \<in> set b) a"

text \<open>\<open>np.where(mask)[0]\<close>: the indices at which a boolean vector is true.\<close>

definition where_true :: "bool list \<Rightarrow> nat list" where
  "where_true msk = filter (\<lambda>i. msk ! i) [0..<length msk]"

text \<open>\<open>m[mask]\<close>: the rows of a matrix selected by a boolean vector.\<close>

definition select_rows :: "'a list \<Rightarrow> bool list \<Rightarrow> 'a list" where
  "select_rows m msk = map fst (filter snd (zip m msk))"

text \<open>
  \<open>np.vstack([a, b])\<close>: the rows of \<open>a\<close> followed by those of \<open>b\<close>; numpy raises
  \<open>ValueError\<close> when the row widths differ.
\<close>

definition vstack :: "table \<Rightarrow> table \<Rightarrow> error + table" where
  "vstack a b =
     (case a @ b of
        [] \<Rightarrow> Inr []
      | r # rs \<Rightarrow> if list_all (\<lambda>q. length q = length r) rs then Inr (a @ b) else Inl ValueError)"

text \<open>
  \<open>m[index, 1:] = box\<close> for one row: the row keeps its id and takes the box; numpy
  broadcasts a box of length one and raises \<open>ValueError\<close> on any other length mismatch.
\<close>

definition assign_box :: "row \<Rightarrow> int list \<Rightarrow> error + row" where
  "assign_box r box =
     (if length box = length r - 1 then Inr (hd r # box)
      else if length box = 1 then Inr (hd r # replicate (length r - 1) (hd box))
      else Inl ValueError)"

text \<open>
  \<open>bbox_matrix_b[bbox_b_index, 1:] = box\<close>, where \<open>bbox_b_index\<close> marks the rows of
  \<open>bbox_matrix_b\<close> whose id is \<open>k\<close>.
\<close>

fun assign_rows_with_id :: "int \<Rightarrow> int list \<Rightarrow> table \<Rightarrow> error + table" where
  "assign_rows_with_id k box [] = Inr []"
| "assign_rows_with_id k box (r # rs) =
     (if hd r = k
      then (case assign_box r box of
              Inl e \<Rightarrow> Inl e
            | Inr r' \<Rightarrow> (case assign_rows_with_id k box rs of
                          Inl e \<Rightarrow> Inl e
                        | Inr rs' \<Rightarrow> Inr (r' # rs')))
      else (case assign_rows_with_id k box rs of
              Inl e \<Rightarrow> Inl e
            | Inr rs' \<Rightarrow> Inr (r # rs')))"

text \<open>
  Lines 207 to 211: the loop over the rows of \<open>bbox_matrix_a\<close> whose id also occurs in
  \<open>bbox_matrix_b\<close>. It reads \<open>bbox_matrix_a\<close> and writes \<open>bbox_matrix_b\<close> in place;
  the function returns the final \<open>bbox_matrix_b\<close>. \<open>[0]\<close> on an empty selection raises
  \<open>IndexError\<close>.
\<close>

fun merge_loop :: "table \<Rightarrow> nat list \<Rightarrow> table \<Rightarrow> error + table" where
  "merge_loop bbox_matrix_a [] bbox_matrix_b = Inr bbox_matrix_b"
| "merge_loop bbox_matrix_a (i # rest) bbox_matrix_b =
     (let bbox_a = tl (bbox_matrix_a ! i);
          k = hd (bbox_matrix_a ! i)
      in case filter (\<lambda>r. hd r = k) bbox_matrix_b of
           [] \<Rightarrow> Inl IndexError
         | rb # _ \<Rightarrow>
             (case assign_rows_with_id k (merge_bbox bbox_a (tl rb)) bbox_matrix_b of
                Inl e \<Rightarrow> Inl e
              | Inr b' \<Rightarrow> merge_loop bbox_matrix_a rest b'))"

text \<open>
  The outcome of a call: the returned value and the contents of the two argument
  arrays when the call returns (the caller still holds both).
\<close>

record merge_outcome =
  returned :: "table option"
  matrix_a_after :: "table option"
  matrix_b_after :: "table option"

text \<open>
  Lines 198 to 212. Column 0 of a matrix without columns raises \<open>IndexError\<close>.
\<close>

definition merge_bbox_two_matrices :: "table option \<Rightarrow> table option \<Rightarrow> error + merge_outcome" where
  "merge_bbox_two_matrices bbox_matrix_a bbox_matrix_b =
     (case bbox_matrix_a of
        None \<Rightarrow> Inr \<lparr>returned = bbox_matrix_b, matrix_a_after = bbox_matrix_a,
                      matrix_b_after = bbox_matrix_b\<rparr>
      | Some a \<Rightarrow>
         (case bbox_matrix_b of
            None \<Rightarrow> Inr \<lparr>returned = bbox_matrix_a, matrix_a_after = bbox_matrix_a,
                          matrix_b_after = bbox_matrix_b\<rparr>
          | Some b \<Rightarrow>
             if list_ex (\<lambda>r. r = []) (a @ b) then Inl IndexError
             else
               let bbox_a_id = map hd a;
                   bbox_b_id = map hd b;
                   intersect_id = in1d bbox_a_id bbox_b_id
               in if length (filter id intersect_id) = 0
                  then (case vstack a b of
                          Inl e \<Rightarrow> Inl e
                        | Inr out \<Rightarrow> Inr \<lparr>returned = Some out, matrix_a_after = Some a,
                                              matrix_b_after = Some b\<rparr>)
                  else (case merge_loop a (where_true intersect_id) b of
                          Inl e \<Rightarrow> Inl e
                        | Inr b' \<Rightarrow>
                           (case vstack (select_rows a (map Not intersect_id)) b' of
                              Inl e \<Rightarrow> Inl e
                            | Inr out \<Rightarrow> Inr \<lparr>returned = Some out, matrix_a_after = Some a,
                                                  matrix_b_after = Some b'\<rparr>))))"

section \<open>\<open>src/data/neuron_mask.py\<close>: the fold of \<open>merge_bbox_tile\<close>\<close>

text \<open>
  Lines 50 to 58: \<open>out = None\<close>, then for every per-tile table read from its file
  \<open>out = merge_bbox_two_matrices(out, bbox.copy())\<close>. The argument is a copy, so the
  in-place writes of the merge do not reach the per-tile table. The rounding to the
  downsampling ratio that follows the loop (lines 59 to 62) is not part of the fold.
\<close>

fun merge_bbox_tile_fold :: "table option \<Rightarrow> table list \<Rightarrow> error + table option" where
  "merge_bbox_tile_fold out [] = Inr out"
| "merge_bbox_tile_fold out (bbox # rest) =
     (case merge_bbox_two_matrices out (Some bbox) of
        Inl e \<Rightarrow> Inl e
      | Inr r \<Rightarrow> merge_bbox_tile_fold (returned r) rest)"

text \<open>
  The geometry the spec states for boxes \<open>[min, max, min, max, ...]\<close>: \<open>x\<close> contains
  \<open>y\<close> when on every axis \<open>x\<close> starts no later and ends no earlier than \<open>y\<close>.
\<close>

fun box_contains :: "int list \<Rightarrow> int list \<Rightarrow> bool" where
  "box_contains [] [] = True"
| "box_contains (x0 # x1 # xs) (y0 # y1 # ys) = (x0 \<le> y0 \<and> y1 \<le> x1 \<and> box_contains xs ys)"
| "box_contains _ _ = False"

text \<open>The box that a table holds for an id: the box of the first row with that id.\<close>

definition box_of_id :: "table \<Rightarrow> int \<Rightarrow> int list option" where
  "box_of_id t k = map_option tl (find (\<lambda>r. hd r = k) t)"

text \<open>
  A well-formed box matrix over \<open>d\<close> axes: every row has \<open>1 + 2 * d\<close> entries and no id
  occurs twice.
\<close>

definition box_matrix :: "nat \<Rightarrow> table \<Rightarrow> bool" where
  "box_matrix d t = (list_all (\<lambda>r. length r = 1 + 2 * d) t \<and> distinct (map hd t))"

text \<open>
  What the merge makes of a row \<open>r\<close> of \<open>bbox_matrix_b\<close>, given the rows \<open>a\<close> of
  \<open>bbox_matrix_a\<close>: the row with its box merged with the box \<open>a\<close> has for the same
  id, or the row itself when \<open>a\<close> has no such id.
\<close>

definition merged_row :: "table \<Rightarrow> row \<Rightarrow> row" where
  "merged_row a r =
     (case find (\<lambda>ra. hd ra = hd r) a of
        None \<Rightarrow> r
      | Some ra \<Rightarrow> hd r # merge_bbox (tl ra) (tl r))"

text \<open>
  The id-to-box mapping of the merge of two mappings: an id of both takes the merged
  box, an id of one keeps its box.
\<close>

definition combine_boxes ::
  "(int \<Rightarrow> int list option) \<Rightarrow> (int \<Rightarrow> int list option) \<Rightarrow> int \<Rightarrow> int list option" where
  "combine_boxes m1 m2 k =
     (case m1 k of
        None \<Rightarrow> m2 k
      | Some x \<Rightarrow> (case m2 k of None \<Rightarrow> Some x | Some y \<Rightarrow> Some (merge_bbox x y)))"

text \<open>The id-to-box mapping of an optional table; \<open>None\<close> holds no id.\<close>

definition boxes_of :: "table option \<Rightarrow> int \<Rightarrow> int list option" where
  "boxes_of out k = (case out of None \<Rightarrow> None | Some t \<Rightarrow> box_of_id t k)"

section \<open>numpy slices\<close>

text \<open>
  Arrays are nested lists in C order: a volume is the list of its z-slices, a slice the
  list of its rows. A slice bound of \<open>a[lo:hi]\<close> on an axis of length \<open>n\<close> counts from
  the end when negative and is clipped to \<open>0..n\<close>.
\<close>

type_synonym plane = "int list list"
type_synonym vol = "plane list"

definition norm_bound :: "nat \<Rightarrow> int \<Rightarrow> nat" where
  "norm_bound n i = (if i < 0 then nat (int n + i) else min n (nat i))"

text \<open>The number of elements of \<open>a[lo:hi]\<close> on an axis of length \<open>n\<close>.\<close>

definition slice_len :: "nat \<Rightarrow> int \<Rightarrow> int \<Rightarrow> nat" where
  "slice_len n lo hi = norm_bound n hi - norm_bound n lo"

text \<open>\<open>xs[lo:hi]\<close>.\<close>

definition slice :: "'a list \<Rightarrow> int \<Rightarrow> int \<Rightarrow> 'a list" where
  "slice xs lo hi = take (slice_len (length xs) lo hi) (drop (norm_bound (length xs) lo) xs)"

text \<open>\<open>xs[lo:hi:st]\<close> for a step \<open>st \<ge> 1\<close>, and the number of its elements.\<close>

definition slice_step_len :: "nat \<Rightarrow> int \<Rightarrow> int \<Rightarrow> int \<Rightarrow> nat" where
  "slice_step_len n lo hi st = (slice_len n lo hi + nat st - 1) div nat st"

definition slice_step :: "'a list \<Rightarrow> int \<Rightarrow> int \<Rightarrow> int \<Rightarrow> 'a list" where
  "slice_step xs lo hi st =
     map (\<lambda>k. xs ! (norm_bound (length xs) lo + k * nat st))
       [0..<slice_step_len (length xs) lo hi st]"

text \<open>
  An axis of length \<open>k\<close> of the assigned value fits an axis of length \<open>m\<close> of the
  target when the lengths agree or \<open>k = 1\<close> (broadcasting); otherwise numpy raises
  \<open>ValueError\<close>.
\<close>

definition broadcastable :: "nat \<Rightarrow> nat \<Rightarrow> bool" where
  "broadcastable k m = (k = m \<or> k = 1)"

text \<open>
  \<open>xs[lo:hi] = src\<close> along one axis, once the shapes are known to fit: element \<open>j\<close> of
  the target range takes element \<open>j\<close> of \<open>src\<close> (the only element of \<open>src\<close> when it is
  broadcast) through \<open>f\<close>, which assigns along the remaining axes.
\<close>

definition assign_slice :: "('a \<Rightarrow> 'b \<Rightarrow> 'a) \<Rightarrow> 'a list \<Rightarrow> int \<Rightarrow> int \<Rightarrow> 'b list \<Rightarrow> 'a list" where
  "assign_slice f xs lo hi src =
     (let l = norm_bound (length xs) lo;
          m = slice_len (length xs) lo hi;
          src' = (if length src = m then src else replicate m (hd src))
      in take l xs @ map2 f (take m (drop l xs)) src' @ drop (l + m) xs)"

text \<open>\<open>xs[i]\<close> for a Python list: a negative index counts from the end.\<close>

definition py_index :: "'a list \<Rightarrow> int \<Rightarrow> error + 'a" where
  "py_index xs i =
     (if 0 \<le> i \<and> i < int (length xs) then Inr (xs ! nat i)
      else if - int (length xs) \<le> i \<and> i < 0 then Inr (xs ! nat (int (length xs) + i))
      else Inl IndexError)"


text \<open>\<open>for x in xs: body\<close>, where the body can raise.\<close>

fun for_each :: "('a \<Rightarrow> 's \<Rightarrow> error + 's) \<Rightarrow> 'a list \<Rightarrow> 's \<Rightarrow> error + 's" where
  "for_each body [] s = Inr s"
| "for_each body (x # xs) s =
     (case body x s of Inl e \<Rightarrow> Inl e | Inr s' \<Rightarrow> for_each body xs s')"

text \<open>\<open>np.zeros((nz, ny, nx))\<close>: a negative dimension raises \<open>ValueError\<close>.\<close>

definition zeros3 :: "int \<Rightarrow> int \<Rightarrow> int \<Rightarrow> error + vol" where
  "zeros3 nz ny nx =
     (if nz < 0 \<or> ny < 0 \<or> nx < 0 then Inl ValueError
      else Inr (replicate (nat nz) (replicate (nat ny) (replicate (nat nx) 0))))"




text \<open>\<open>np.any(p > 0)\<close> for a slice \<open>p\<close>.\<close>

definition any_positive :: "plane \<Rightarrow> bool" where
  "any_positive p = list_ex (list_ex (\<lambda>v. v > 0)) p"

section \<open>\<open>src/data/util/tile.py\<close>: \<open>read_tile_image_by_bbox\<close>\<close>



text \<open>
  Lines 140 to 143: the first index from \<open>blank_st\<close> up to \<open>blank_lt\<close> whose slice has a
  positive pixel, or \<open>blank_lt + 1\<close>.
\<close>

function scan_blank_st :: "vol \<Rightarrow> int \<Rightarrow> int \<Rightarrow> int" where
  "scan_blank_st result blank_st blank_lt =
     (if blank_st \<le> blank_lt \<and> \<not> any_positive (result ! nat blank_st)
      then scan_blank_st result (blank_st + 1) blank_lt
      else blank_st)"
  by pat_completeness auto
termination
  by (relation "measure (\<lambda>(result, blank_st, blank_lt). nat (blank_lt + 1 - blank_st))") auto

text \<open>
  Lines 148 to 149: the last index from \<open>blank_lt\<close> down to \<open>blank_st\<close> whose slice has
  a positive pixel, or \<open>blank_st - 1\<close>.
\<close>

function scan_blank_lt :: "vol \<Rightarrow> int \<Rightarrow> int \<Rightarrow> int" where
  "scan_blank_lt result blank_st blank_lt =
     (if blank_lt \<ge> blank_st \<and> \<not> any_positive (result ! nat blank_lt)
      then scan_blank_lt result blank_st (blank_lt - 1)
      else blank_lt)"
  by pat_completeness auto
termination
  by (relation "measure (\<lambda>(result, blank_st, blank_lt). nat (blank_lt + 1 - blank_st))") auto

text \<open>
  \<open>result[lo:hi] = src\<close> along the z-axis, where \<open>src\<close> is a range of slices of the same
  array.
\<close>

definition assign_planes :: "vol \<Rightarrow> int \<Rightarrow> int \<Rightarrow> vol \<Rightarrow> error + vol" where
  "assign_planes result lo hi src =
     (if broadcastable (length src) (slice_len (length result) lo hi)
      then Inr (assign_slice (\<lambda>_ p. p) result lo hi src)
      else Inl ValueError)"

text \<open>Lines 151 to 153: an interior slice without a positive pixel takes its predecessor.\<close>

definition fill_interior :: "int \<Rightarrow> vol \<Rightarrow> error + vol" where
  "fill_interior z result =
     (if \<not> any_positive (result ! nat z) then Inr (result[nat z := result ! nat (z - 1)])
      else Inr result)"

text \<open>
  The outcome of the blank-slice repair and of the whole call: the array, and whether
  \<open>"!! This volume is all 0 !!"\<close> was printed.
\<close>

record image_outcome =
  volume :: vol
  warned_all_zero :: bool

text \<open>Lines 140 to 153, the branch taken when \<open>tile_blank != ""\<close>.\<close>

definition blank_repair :: "vol \<Rightarrow> error + image_outcome" where
  "blank_repair result =
     (let blank_st = scan_blank_st result 0 (int (length result) - 1);
          blank_lt = int (length result) - 1
      in if blank_st = blank_lt + 1
         then Inr \<lparr>volume = result, warned_all_zero = True\<rparr>
         else
           (case assign_planes result 0 blank_st (slice result blank_st (blank_st + 1)) of
              Inl e \<Rightarrow> Inl e
            | Inr result \<Rightarrow>
               let blank_lt = scan_blank_lt result blank_st blank_lt
               in (case assign_planes result blank_lt (int (length result))
                          (slice result (blank_lt - 1) blank_lt) of
                     Inl e \<Rightarrow> Inl e
                   | Inr result \<Rightarrow>
                      (case for_each fill_interior (py_range (blank_st + 1) blank_lt) result of
                         Inl e \<Rightarrow> Inl e
                       | Inr result \<Rightarrow> Inr \<lparr>volume = result, warned_all_zero = False\<rparr>))))"


section \<open>\<open>src/util/bbox.py\<close>: \<open>compute_bbox_all\<close>\<close>

text \<open>
  A label map holds instance ids, non-negative integers with 0 for the background. The
  rows of the returned numpy table are integer lists \<open>[id, min, max, ..., count]\<close>.
  \<open>np.unique\<close> returns the sorted distinct values of an array.
\<close>

datatype label_map = Seg2 "nat list list" | Seg3 "nat list list list" | SegOther

definition np_unique :: "nat list \<Rightarrow> nat list" where
  "np_unique xs = sort (remdups xs)"

text \<open>
  \<open>out[sid, cmin] = np.minimum(out[sid, cmin], pos)\<close> followed by
  \<open>out[sid, cmax] = np.maximum(out[sid, cmax], pos)\<close> for the distinct ids \<open>sid\<close>.
\<close>

definition tighten :: "nat \<Rightarrow> nat \<Rightarrow> int \<Rightarrow> nat list \<Rightarrow> table \<Rightarrow> table" where
  "tighten cmin cmax pos sid out =
     fold (\<lambda>k out. out[k := (out ! k)[cmin := min (out ! k ! cmin) pos,
                                         cmax := max (out ! k ! cmax) pos]]) sid out"

text \<open>
  \<open>out[seg_ui, c] = seg_uc\<close>: the row of every listed value takes the number of times
  the value occurs in \<open>vals\<close>.
\<close>

definition set_counts :: "nat \<Rightarrow> nat list \<Rightarrow> nat list \<Rightarrow> table \<Rightarrow> table" where
  "set_counts c vals seg_ui out =
     fold (\<lambda>v out. out[v := (out ! v)[c := int (count_list vals v)]]) seg_ui out"

text \<open>
  Lines 83 to 112. The table is \<open>uint32\<close>: the maximum columns start at 0. With
  \<open>do_count\<close>, a label above \<open>uid_max\<close> indexes past the table and raises
  \<open>IndexError\<close>.
\<close>

definition compute_bbox_all_2d :: "nat list list \<Rightarrow> bool \<Rightarrow> nat list option \<Rightarrow> error + table option" where
  "compute_bbox_all_2d seg do_count uid =
     (let sz = (length seg, case seg of [] \<Rightarrow> 0 | r # _ \<Rightarrow> length r);
          uid = (case uid of
                   None \<Rightarrow> filter (\<lambda>v. v > 0) (np_unique (concat seg))
                 | Some u \<Rightarrow> u)
      in if length uid = 0 then Inr None
         else
           let uid_max = Max (set uid);
               out = map (\<lambda>k. [int k, int (fst sz), 0, int (snd sz), 0]
                                @ (if do_count then [0] else [])) [0..<1 + uid_max];
               rids = filter (\<lambda>rid. list_ex (\<lambda>v. v > 0) (seg ! rid)) [0..<fst sz];
               out = fold (\<lambda>rid. tighten 1 2 (int rid)
                             (filter (\<lambda>s. s > 0 \<and> s \<le> uid_max) (np_unique (seg ! rid))))
                       rids out;
               cids = filter (\<lambda>cid. list_ex (\<lambda>r. r ! cid > 0) seg) [0..<snd sz];
               out = fold (\<lambda>cid. tighten 3 4 (int cid)
                             (filter (\<lambda>s. s > 0 \<and> s \<le> uid_max)
                                (np_unique (map (\<lambda>r. r ! cid) seg))))
                       cids out
           in if do_count
              then (if list_ex (\<lambda>v. v > uid_max) (concat seg) then Inl IndexError
                    else Inr (Some (map (\<lambda>k. set_counts 5 (concat seg) (np_unique (concat seg)) out ! k)
                                      uid)))
              else Inr (Some (map (\<lambda>k. out ! k) uid)))"

text \<open>
  Lines 135 to 177. The table is \<open>int32\<close> with the maximum columns starting at \<open>-1\<close>;
  \<open>uid\<close> is only used for its maximum, and the maximum of an empty array raises
  \<open>ValueError\<close>. The rows that hold no \<open>-1\<close> are returned.
\<close>

definition compute_bbox_all_3d :: "nat list list list \<Rightarrow> bool \<Rightarrow> nat list option \<Rightarrow> error + table" where
  "compute_bbox_all_3d seg do_count uid =
     (let sz0 = length seg;
          sz1 = (case seg of [] \<Rightarrow> 0 | p # _ \<Rightarrow> length p);
          sz2 = (case seg of [] \<Rightarrow> 0 | p # _ \<Rightarrow> (case p of [] \<Rightarrow> 0 | r # _ \<Rightarrow> length r));
          uid = (case uid of None \<Rightarrow> concat (concat seg) | Some u \<Rightarrow> u)
      in if uid = [] then Inl ValueError
         else
           let uid_max = Max (set uid);
               out = map (\<lambda>k. [int k, int sz0, - 1, int sz1, - 1, int sz2, - 1]
                                @ (if do_count then [0] else [])) [0..<1 + uid_max];
               zids = filter (\<lambda>zid. list_ex (\<lambda>v. v > 0) (concat (seg ! zid))) [0..<sz0];
               out = fold (\<lambda>zid. tighten 1 2 (int zid)
                             (filter (\<lambda>s. s > 0 \<and> s \<le> uid_max) (np_unique (concat (seg ! zid)))))
                       zids out;
               rids = filter (\<lambda>rid. list_ex (\<lambda>v. v > 0) (concat (map (\<lambda>p. p ! rid) seg))) [0..<sz1];
               out = fold (\<lambda>rid. tighten 3 4 (int rid)
                             (filter (\<lambda>s. s > 0 \<and> s \<le> uid_max)
                                (np_unique (concat (map (\<lambda>p. p ! rid) seg)))))
                       rids out;
               cids = filter (\<lambda>cid. list_ex (\<lambda>v. v > 0)
                                        (concat (map (\<lambda>p. map (\<lambda>r. r ! cid) p) seg))) [0..<sz2];
               out = fold (\<lambda>cid. tighten 5 6 (int cid)
                             (filter (\<lambda>s. s > 0 \<and> s \<le> uid_max)
                                (np_unique (concat (map (\<lambda>p. map (\<lambda>r. r ! cid) p) seg)))))
                       cids out;
               out = (if do_count
                      then set_counts 7 (concat (concat seg))
                             (filter (\<lambda>v. v \<le> uid_max) (np_unique (concat (concat seg)))) out
                      else out)
           in Inr (filter (\<lambda>r. list_all (\<lambda>x. x \<noteq> - 1) r) out))"

text \<open>
  Lines 55 to 60. For a rank other than 2 or 3 the code raises a string, which is a
  \<open>TypeError\<close>.
\<close>

definition compute_bbox_all :: "label_map \<Rightarrow> bool \<Rightarrow> nat list option \<Rightarrow> error + table option" where
  "compute_bbox_all seg do_count uid =
     (case seg of
        Seg2 s \<Rightarrow> compute_bbox_all_2d s do_count uid
      | Seg3 s \<Rightarrow> (case compute_bbox_all_3d s do_count uid of Inl e \<Rightarrow> Inl e | Inr t \<Rightarrow> Inr (Some t))
      | SegOther \<Rightarrow> Inl TypeError)"

section \<open>\<open>src/data/util/tile.py\<close>: \<open>read_tile_h5_by_bbox\<close>\<close>

text \<open>
  The model covers calls with \<open>cid = -1\<close>, three-dimensional chunk datasets,
  \<open>h5_func = None\<close> and \<open>mask = None\<close>. The chunk files are a parameter:
  \<open>h5_file zid yid xid\<close> is the dataset stored under \<open>h5_key\<close> in the file
  \<open>h5_name(zid, yid, xid)\<close>, or \<open>None\<close> when that path does not exist. The chunk
  datasets all have one unsigned integer dtype, of \<open>chunk_dt\<close> bits, and the parameter
  \<open>dt\<close> is the number of bits of the unsigned integer dtype \<open>dt\<close>. An h5 output dataset
  is modelled as the array of its values, zero-filled when created; \<open>h5_convert w v\<close> is
  the value that the HDF5 library stores when \<open>v\<close> is written into a dataset of a
  \<open>w\<close>-bit dtype.

  \<open>sub in s\<close> for strings.
\<close>

fun py_in :: "string \<Rightarrow> string \<Rightarrow> bool" where
  "py_in sub [] = (sub = [])"
| "py_in sub (c # cs) = (take (length sub) (c # cs) = sub \<or> py_in sub cs)"

definition shape3 :: "vol \<Rightarrow> nat \<times> nat \<times> nat" where
  "shape3 v = (length v,
               case v of [] \<Rightarrow> 0 | p # _ \<Rightarrow> length p,
               case v of [] \<Rightarrow> 0 | p # _ \<Rightarrow> (case p of [] \<Rightarrow> 0 | r # _ \<Rightarrow> length r))"

text \<open>
  \<open>fid[zlo:zhi:zs, ylo:yhi:ys, xlo:xhi:xs]\<close> on an h5 dataset, which raises
  \<open>ValueError\<close> for a step below 1; the value and its shape.
\<close>

definition read_block ::
  "vol \<Rightarrow> int \<times> int \<times> int \<Rightarrow> int \<times> int \<times> int \<Rightarrow> int \<times> int \<times> int \<Rightarrow> error + (vol \<times> nat \<times> nat \<times> nat)" where
  "read_block fid zsel ysel xsel =
     (case (zsel, ysel, xsel) of ((zlo, zhi, zs), (ylo, yhi, ys), (xlo, xhi, xs)) \<Rightarrow>
        if zs < 1 \<or> ys < 1 \<or> xs < 1 then Inl ValueError
        else
          (case shape3 fid of (cz, cy, cx) \<Rightarrow>
             Inr (map (\<lambda>p. map (\<lambda>r. slice_step r xlo xhi xs) (slice_step p ylo yhi ys))
                    (slice_step fid zlo zhi zs),
                  slice_step_len cz zlo zhi zs,
                  slice_step_len cy ylo yhi ys,
                  slice_step_len cx xlo xhi xs)))"

text \<open>
  \<open>dst[zlo:zhi, ylo:yhi, xlo:xhi] = src\<close> for a target of shape \<open>dst_shape\<close> and a
  value of shape \<open>src_shape\<close>.
\<close>

definition assign3 ::
  "vol \<Rightarrow> nat \<times> nat \<times> nat \<Rightarrow> int \<times> int \<Rightarrow> int \<times> int \<Rightarrow> int \<times> int \<Rightarrow> vol \<Rightarrow> nat \<times> nat \<times> nat
     \<Rightarrow> error + vol" where
  "assign3 dst dst_shape zsel ysel xsel src src_shape =
     (case (dst_shape, src_shape, zsel, ysel, xsel) of
        ((nz, ny, nx), (kz, ky, kx), (zlo, zhi), (ylo, yhi), (xlo, xhi)) \<Rightarrow>
          if broadcastable kz (slice_len nz zlo zhi) \<and> broadcastable ky (slice_len ny ylo yhi)
             \<and> broadcastable kx (slice_len nx xlo xhi)
          then Inr (assign_slice
                      (\<lambda>p sp. assign_slice (\<lambda>r sr. assign_slice (\<lambda>_ v. v) r xlo xhi sr) p ylo yhi sp)
                      dst zlo zhi src)
          else Inl ValueError)"

text \<open>
  The state of the loops: the running id offset \<open>mid\<close>, the destination array, and the
  slices written with \<open>write_image\<close> in the per-slice image mode, each with its absolute
  z-index.
\<close>

record h5_state =
  mid :: int
  dest :: vol
  emitted :: "(int \<times> plane) list"

text \<open>
  Lines 219 to 251, for the chunk \<open>(zid, yid, xid)\<close>: \<open>None\<close> when the chunk file does
  not exist; otherwise the block \<open>tmp\<close> read from it, the shape of \<open>tmp\<close>, and the
  world-space window \<open>[z0a, z1a) x [y0a, y1a) x [x0a, x1a)\<close> it covers. \<open>(zp0, z0a, z1a)\<close>
  and \<open>(yp0, y0a, y1a)\<close> come from the enclosing loops.
\<close>

definition chunk_read ::
  "(int \<Rightarrow> int \<Rightarrow> int \<Rightarrow> vol option) \<Rightarrow> int \<times> int \<times> int \<Rightarrow> int \<times> int \<times> int \<Rightarrow> int \<times> int \<Rightarrow> int
     \<Rightarrow> int \<Rightarrow> int \<Rightarrow> int \<Rightarrow> int \<times> int \<times> int \<Rightarrow> int \<Rightarrow> int \<times> int \<times> int \<Rightarrow> int
     \<Rightarrow> error + (vol \<times> (nat \<times> nat \<times> nat) \<times> (int \<times> int) \<times> (int \<times> int) \<times> (int \<times> int)) option" where
  "chunk_read h5_file zyx_sz zyx0 tile_step zstep x0 x1 zid zext yid yext xid =
     (case (zext, yext) of ((zp0, z0a, z1a), (yp0, y0a, y1a)) \<Rightarrow>
        (case h5_file zid yid xid of
           None \<Rightarrow> Inr None
         | Some fid \<Rightarrow>
             let xp0 = xid * snd (snd zyx_sz) + snd (snd zyx0);
                 xp1 = (xid + 1) * snd (snd zyx_sz) + snd (snd zyx0);
                 x0a = max x0 xp0;
                 x1a = min x1 xp1
             in (case read_block fid
                        ((z0a - zp0) * zstep, (z1a - zp0) * zstep, zstep)
                        ((y0a - yp0) * fst tile_step, (y1a - yp0) * fst tile_step, fst tile_step)
                        ((x0a - xp0) * snd tile_step, (x1a - xp0) * snd tile_step, snd tile_step) of
                   Inl e \<Rightarrow> Inl e
                 | Inr (tmp, tshape) \<Rightarrow>
                     Inr (Some (tmp, tshape, (z0a, z1a), (y0a, y1a), (x0a, x1a))))))"

text \<open>
  An unsigned numpy dtype of \<open>w\<close> bits holds the values \<open>0\<close> to \<open>2 ^ w - 1\<close>. An
  addition in the dtype, and the conversion of an integer into the dtype when it is
  assigned into a numpy array, keep the low \<open>w\<close> bits.
\<close>

definition wrap :: "nat \<Rightarrow> int \<Rightarrow> int" where
  "wrap w v = v mod 2 ^ w"

text \<open>\<open>tmp[tmp > 0] += m\<close> for a block \<open>tmp\<close> of a \<open>w\<close>-bit dtype: the sum wraps.\<close>

definition offset_positive :: "nat \<Rightarrow> int \<Rightarrow> vol \<Rightarrow> vol" where
  "offset_positive w m tmp = map (map (map (\<lambda>x. if x > 0 then wrap w (x + m) else x))) tmp"

text \<open>
  Lines 252 to 255: \<open>tmp_max = tmp.max()\<close>, \<open>tmp[tmp > 0] += mid\<close>,
  \<open>mid += tmp_max\<close>. The maximum of an empty array raises \<open>ValueError\<close>. \<open>tmp_max\<close>
  is a scalar of the dtype of \<open>tmp\<close>, and so is \<open>mid\<close> from the first chunk on: both
  additions are made in that dtype, of \<open>w\<close> bits. The result is the block to composite
  and the new \<open>mid\<close>.
\<close>

definition accumulate_ids :: "nat \<Rightarrow> int \<Rightarrow> vol \<Rightarrow> error + (vol \<times> int)" where
  "accumulate_ids w m tmp =
     (case concat (concat tmp) of
        [] \<Rightarrow> Inl ValueError
      | v # vs \<Rightarrow>
          let tmp_max = fold max vs v
          in Inr (offset_positive w m tmp, wrap w (m + tmp_max)))"

text \<open>
  Lines 219 to 263, the body of the innermost loop for the chunk \<open>(zid, yid, xid)\<close>.
  \<open>in_place\<close> is \<open>output_file is None or '.h5' in output_file\<close>; \<open>dshape\<close> is the
  shape of the destination, and \<open>cast\<close> the conversion of a value into the dtype of the
  destination, made by the assignment \<open>result[...] = tmp\<close>.
\<close>

definition process_chunk ::
  "(int \<Rightarrow> int \<Rightarrow> int \<Rightarrow> vol option) \<Rightarrow> nat \<Rightarrow> (int \<Rightarrow> int) \<Rightarrow> int \<times> int \<times> int \<Rightarrow> int \<times> int \<times> int
     \<Rightarrow> int \<times> int \<Rightarrow> int \<Rightarrow> bool \<Rightarrow> bool \<Rightarrow> nat \<times> nat \<times> nat \<Rightarrow> int \<Rightarrow> int \<Rightarrow> int \<Rightarrow> int
     \<Rightarrow> int \<Rightarrow> int \<times> int \<times> int \<Rightarrow> int \<Rightarrow> int \<times> int \<times> int \<Rightarrow> int \<Rightarrow> h5_state \<Rightarrow> error + h5_state" where
  "process_chunk h5_file chunk_dt cast zyx_sz zyx0 tile_step zstep acc_id in_place dshape z0 y0 x0 x1
       zid zext yid yext xid st =
     (case chunk_read h5_file zyx_sz zyx0 tile_step zstep x0 x1 zid zext yid yext xid of
        Inl e \<Rightarrow> Inl e
      | Inr None \<Rightarrow> Inr st
      | Inr (Some (tmp, tshape, (z0a, z1a), (y0a, y1a), (x0a, x1a))) \<Rightarrow>
          (case (if acc_id then accumulate_ids chunk_dt (mid st) tmp else Inr (tmp, mid st)) of
             Inl e \<Rightarrow> Inl e
           | Inr (tmp, m) \<Rightarrow>
              (case assign3 (dest st) dshape
                      (if in_place then (z0a - z0, z1a - z0) else (0, z1a - z0a))
                      (y0a - y0, y1a - y0) (x0a - x0, x1a - x0)
                      (map (map (map cast)) tmp) tshape of
                 Inl e \<Rightarrow> Inl e
               | Inr d \<Rightarrow> Inr (st\<lparr>mid := m, dest := d\<rparr>))))"

text \<open>
  Lines 270 to 272, the per-slice image mode: \<open>write_image(output_file % z, result[z - z0a])\<close>.
\<close>

definition emit_slice :: "int \<Rightarrow> int \<Rightarrow> h5_state \<Rightarrow> error + h5_state" where
  "emit_slice z0a z st =
     (case py_index (dest st) (z - z0a) of
        Inl e \<Rightarrow> Inl e
      | Inr p \<Rightarrow> Inr (st\<lparr>emitted := emitted st @ [(z, p)]\<rparr>))"

text \<open>
  Lines 202 to 212: for the z-block \<open>zid\<close>, the start \<open>zp0\<close> of its extent and the
  part \<open>[z0a, z1a)\<close> of the request that falls into it. Lines 214 to 217: the same for
  the row block \<open>yid\<close>, whose extent is nominal.
\<close>

definition z_window :: "int \<Rightarrow> int \<Rightarrow> int \<times> int \<times> int \<Rightarrow> int \<times> int \<times> int \<Rightarrow> int \<times> int \<times> int \<Rightarrow> int
    \<Rightarrow> int \<times> int \<times> int" where
  "z_window z0 z1 zyx_sz zyx0 zz zid =
     (case z_extent (fst zyx_sz) (fst zyx0) zz zid of (zp0, zp1) \<Rightarrow>
        let z0a = max z0 zp0;
            z1a = min z1 zp1
        in (zp0, z0a, z1a))"

definition y_window :: "int \<Rightarrow> int \<Rightarrow> int \<times> int \<times> int \<Rightarrow> int \<times> int \<times> int \<Rightarrow> int \<Rightarrow> int \<times> int \<times> int" where
  "y_window y0 y1 zyx_sz zyx0 yid =
     (let yp0 = yid * fst (snd zyx_sz) + fst (snd zyx0);
          yp1 = (yid + 1) * fst (snd zyx_sz) + fst (snd zyx0);
          y0a = max y0 yp0;
          y1a = min y1 yp1
      in (yp0, y0a, y1a))"

text \<open>Lines 201 to 272, the body of the loop over the z-blocks \<open>range(d0, d1)\<close>.\<close>

definition process_zblock ::
  "(int \<Rightarrow> int \<Rightarrow> int \<Rightarrow> vol option) \<Rightarrow> nat \<Rightarrow> (int \<Rightarrow> int) \<Rightarrow> int \<times> int \<times> int \<Rightarrow> int \<times> int \<times> int
     \<Rightarrow> int \<times> int \<times> int \<Rightarrow> int \<times> int \<Rightarrow> int \<Rightarrow> bool \<Rightarrow> bool \<Rightarrow> nat \<times> nat \<times> nat
     \<Rightarrow> int \<Rightarrow> int \<Rightarrow> int \<Rightarrow> int \<Rightarrow> int \<Rightarrow> int
     \<Rightarrow> int \<times> int \<Rightarrow> int \<times> int \<Rightarrow> int \<Rightarrow> h5_state \<Rightarrow> error + h5_state" where
  "process_zblock h5_file chunk_dt cast zyx_sz zyx0 zz tile_step zstep acc_id in_place dshape
       z0 z1 y0 y1 x0 x1 rr cc zid st =
     (case for_each
             (\<lambda>yid. for_each
                      (process_chunk h5_file chunk_dt cast zyx_sz zyx0 tile_step zstep acc_id in_place dshape
                         z0 y0 x0 x1 zid (z_window z0 z1 zyx_sz zyx0 zz zid)
                         yid (y_window y0 y1 zyx_sz zyx0 yid))
                      (py_range (fst cc) (snd cc)))
             (py_range (fst rr) (snd rr)) st of
        Inl e \<Rightarrow> Inl e
      | Inr st \<Rightarrow>
          if in_place then Inr st
          else (case z_window z0 z1 zyx_sz zyx0 zz zid of (zp0, z0a, z1a) \<Rightarrow>
                  for_each (emit_slice z0a) (py_range z0a z1a) st))"

text \<open>
  Lines 176 to 189: the destination for the three output modes and its shape. In the
  h5 mode, \<open>output_chunk / num_z\<close> divides by \<open>zyx_sz[0]\<close>.
\<close>

definition h5_destination ::
  "string option \<Rightarrow> int \<Rightarrow> int \<Rightarrow> int \<Rightarrow> int \<Rightarrow> int \<Rightarrow> int \<Rightarrow> int \<times> int \<times> int \<Rightarrow> int \<times> int \<times> int
     \<Rightarrow> error + (vol \<times> nat \<times> nat \<times> nat)" where
  "h5_destination output_file z0 z1 y0 y1 x0 x1 zyx_sz zz =
     (let nz = (case output_file of
                  None \<Rightarrow> Inr (z1 - z0)
                | Some f \<Rightarrow>
                    if py_in ''.h5'' f
                    then (if fst zyx_sz = 0 then Inl ZeroDivisionError else Inr (z1 - z0))
                    else Inr (fst zyx_sz + max (fst zz) (fst (snd zz))))
      in case nz of
           Inl e \<Rightarrow> Inl e
         | Inr nz \<Rightarrow>
            (case zeros3 nz (y1 - y0) (x1 - x0) of
               Inl e \<Rightarrow> Inl e
             | Inr result \<Rightarrow> Inr (result, nat nz, nat (y1 - y0), nat (x1 - x0))))"

text \<open>
  Lines 174 and 175: the dtype of the result, in bits: \<open>np.uint8\<close> for
  \<open>tile_type == 'image'\<close>, the parameter \<open>dt\<close> otherwise.
\<close>

definition result_dtype :: "string \<Rightarrow> nat \<Rightarrow> nat" where
  "result_dtype tile_type dt = (if tile_type = ''image'' then 8 else dt)"

text \<open>
  The conversion of a value into the destination created at lines 176 to 189: a numpy
  array of dtype \<open>dt\<close> keeps the low bits; an h5 dataset of dtype \<open>dt\<close> stores what the
  HDF5 library converts the value to.
\<close>

definition result_cast :: "(nat \<Rightarrow> int \<Rightarrow> int) \<Rightarrow> string option \<Rightarrow> nat \<Rightarrow> int \<Rightarrow> int" where
  "result_cast h5_convert output_file dt =
     (case output_file of
        None \<Rightarrow> wrap dt
      | Some f \<Rightarrow> if py_in ''.h5'' f then h5_convert dt else wrap dt)"

text \<open>
  Lines 169 to 275. The last test, \<open>'.h5' in output_file\<close> at line 273, is evaluated
  in every output mode; \<open>in\<close> on \<open>None\<close> raises \<open>TypeError\<close>.
\<close>

definition read_tile_h5_by_bbox ::
  "(int \<Rightarrow> int \<Rightarrow> int \<Rightarrow> vol option) \<Rightarrow> nat \<Rightarrow> (nat \<Rightarrow> int \<Rightarrow> int)
     \<Rightarrow> int \<Rightarrow> int \<Rightarrow> int \<Rightarrow> int \<Rightarrow> int \<Rightarrow> int
     \<Rightarrow> int \<times> int \<times> int \<Rightarrow> int \<times> int \<times> int \<Rightarrow> nat \<Rightarrow> int \<times> int \<times> int \<Rightarrow> int \<times> int \<Rightarrow> int \<Rightarrow> bool
     \<Rightarrow> string option \<Rightarrow> string \<Rightarrow> error + h5_state" where
  "read_tile_h5_by_bbox h5_file chunk_dt h5_convert z0 z1 y0 y1 x0 x1 zyx_sz zyx0 dt zz tile_step zstep
       acc_id output_file tile_type =
     (case h5_destination output_file z0 z1 y0 y1 x0 x1 zyx_sz zz of
        Inl e \<Rightarrow> Inl e
      | Inr (result, dshape) \<Rightarrow>
     (case floordiv (max 0 (x0 - snd (snd zyx0))) (snd (snd zyx_sz)) of
        Inl e \<Rightarrow> Inl e
      | Inr c0 \<Rightarrow>
     (case floordiv (x1 - snd (snd zyx0) + snd (snd zyx_sz) - 1) (snd (snd zyx_sz)) of
        Inl e \<Rightarrow> Inl e
      | Inr c1 \<Rightarrow>
     (case floordiv (max 0 (y0 - fst (snd zyx0))) (fst (snd zyx_sz)) of
        Inl e \<Rightarrow> Inl e
      | Inr r0 \<Rightarrow>
     (case floordiv (y1 - fst (snd zyx0) + fst (snd zyx_sz) - 1) (fst (snd zyx_sz)) of
        Inl e \<Rightarrow> Inl e
      | Inr r1 \<Rightarrow>
     (case z_block_range z0 z1 (fst zyx_sz) (fst zyx0) zz of
        Inl e \<Rightarrow> Inl e
      | Inr (d0, d1) \<Rightarrow>
         let in_place = (case output_file of None \<Rightarrow> True | Some f \<Rightarrow> py_in ''.h5'' f);
             cast = result_cast h5_convert output_file (result_dtype tile_type dt)
         in (case for_each
                    (process_zblock h5_file chunk_dt cast zyx_sz zyx0 zz tile_step zstep acc_id in_place
                       dshape z0 z1 y0 y1 x0 x1 (r0, r1) (c0, c1))
                    (py_range d0 d1) \<lparr>mid = 0, dest = result, emitted = []\<rparr> of
               Inl e \<Rightarrow> Inl e
             | Inr st \<Rightarrow>
                (case output_file of
                   None \<Rightarrow> Inl TypeError
                 | Some f \<Rightarrow> Inr st))))))))"

section \<open>\<open>src/util/bbox.py\<close>: \<open>compute_bbox\<close>\<close>

text \<open>
  \<open>compute_bbox\<close> takes an array of any dimension. Such an array is modelled as numpy
  stores it: its shape and its values in C order. A boolean mask holds the values 0 and 1.
\<close>

record ndarray =
  nd_shape :: "nat list"
  nd_data :: "int list"

text \<open>
  \<open>np.unravel_index\<close>: the coordinates of the element at flat position \<open>k\<close> of an
  array of the given shape.
\<close>

fun unravel :: "nat list \<Rightarrow> nat \<Rightarrow> nat list" where
  "unravel [] k = []"
| "unravel (n # ns) k = (k div prod_list ns) # unravel ns (k mod prod_list ns)"

text \<open>
  \<open>np.where(seg > 0)\<close>: the coordinates of the positive elements in C order, as one
  coordinate list per element (\<open>positive_coords\<close>) and as numpy returns them, one array
  of coordinates per axis (\<open>np_where_positive\<close>).
\<close>

definition positive_coords :: "ndarray \<Rightarrow> nat list list" where
  "positive_coords seg =
     map (unravel (nd_shape seg)) (filter (\<lambda>k. nd_data seg ! k > 0) [0..<length (nd_data seg)])"

definition np_where_positive :: "ndarray \<Rightarrow> nat list list" where
  "np_where_positive seg =
     map (\<lambda>i. map (\<lambda>c. c ! i) (positive_coords seg)) [0..<length (nd_shape seg)]"

text \<open>
  Lines 26 to 27: \<open>out += [pix_nonzero[i].min(), pix_nonzero[i].max()]\<close> for every axis;
  the minimum of an empty array raises \<open>ValueError\<close>.
\<close>

fun bbox_axes :: "nat list list \<Rightarrow> error + int list" where
  "bbox_axes [] = Inr []"
| "bbox_axes (p # ps) =
     (if p = [] then Inl ValueError
      else (case bbox_axes ps of
              Inl e \<Rightarrow> Inl e
            | Inr out \<Rightarrow> Inr (int (Min (set p)) # int (Max (set p)) # out)))"

text \<open>
  Lines 21 to 31. \<open>seg.any()\<close> tests for a non-zero element; \<open>pix_nonzero[0]\<close> on the
  empty tuple of a zero-dimensional array raises \<open>IndexError\<close>.
\<close>

definition compute_bbox :: "ndarray \<Rightarrow> bool \<Rightarrow> error + int list option" where
  "compute_bbox seg do_count =
     (if \<not> list_ex (\<lambda>v. v \<noteq> 0) (nd_data seg) then Inr None
      else
        let pix_nonzero = np_where_positive seg
        in (case bbox_axes pix_nonzero of
              Inl e \<Rightarrow> Inl e
            | Inr out \<Rightarrow>
                if do_count
                then (case pix_nonzero of
                        [] \<Rightarrow> Inl IndexError
                      | p0 # _ \<Rightarrow> Inr (Some (out @ [int (length p0)])))
                else Inr (Some out)))"

text \<open>
  The exhaustive scan the spec compares with: every coordinate tuple of the shape is
  visited, the element there is looked up, and the minimum and maximum coordinate of the
  foreground positions are taken per axis.
\<close>

fun all_indices :: "nat list \<Rightarrow> nat list list" where
  "all_indices [] = [[]]"
| "all_indices (n # ns) = concat (map (\<lambda>i. map ((#) i) (all_indices ns)) [0..<n])"

fun ravel :: "nat list \<Rightarrow> nat list \<Rightarrow> nat" where
  "ravel (n # ns) (i # idx) = i * prod_list ns + ravel ns idx"
| "ravel _ _ = 0"

definition value_at :: "ndarray \<Rightarrow> nat list \<Rightarrow> int" where
  "value_at seg idx = nd_data seg ! ravel (nd_shape seg) idx"

definition scan_foreground :: "ndarray \<Rightarrow> nat list list" where
  "scan_foreground seg = filter (\<lambda>idx. value_at seg idx > 0) (all_indices (nd_shape seg))"

definition scan_bbox :: "ndarray \<Rightarrow> bool \<Rightarrow> int list option" where
  "scan_bbox seg do_count =
     (let fg = scan_foreground seg
      in if fg = [] then None
         else Some (concat (map (\<lambda>i. [int (Min ((\<lambda>idx. idx ! i) ` set fg)),
                                          int (Max ((\<lambda>idx. idx ! i) ` set fg))])
                              [0..<length (nd_shape seg)])
                    @ (if do_count then [int (length fg)] else [])))"

section \<open>The chunk traversal of \<open>read_tile_h5_by_bbox\<close>, flattened\<close>







section \<open>Concrete inputs\<close>



definition no_chunks :: "int \<Rightarrow> int \<Rightarrow> int \<Rightarrow> vol option" where
  "no_chunks zid yid xid = None"

text \<open>
  A chunk store of two chunks of shape \<open>(1, 1, 1)\<close>, side by side along x, holding
  the ids 200 and 100.
\<close>

definition large_id_chunks :: "int \<Rightarrow> int \<Rightarrow> int \<Rightarrow> vol option" where
  "large_id_chunks zid yid xid =
     (if zid = 0 \<and> yid = 0 \<and> xid = 0 then Some [[[200]]]
      else if zid = 0 \<and> yid = 0 \<and> xid = 1 then Some [[[100]]]
      else None)"

text \<open>
  A conversion for h5 datasets that clips a value to the range of the \<open>w\<close>-bit dtype.
\<close>

definition saturate :: "nat \<Rightarrow> int \<Rightarrow> int" where
  "saturate w v = max 0 (min v (2 ^ w - 1))"

section \<open>Properties of the block addressing\<close>

lemma py_range_set: "set (py_range lo hi) = {z. lo \<le> z \<and> z < hi}"
proof -
  have "\<And>z. lo \<le> z \<Longrightarrow> z < hi \<Longrightarrow> z \<in> (\<lambda>k. lo + int k) ` {0..<nat (hi - lo)}"
  proof -
    fix z :: int
    assume a: "lo \<le> z" "z < hi"
    then have "z = lo + int (nat (z - lo))" and "nat (z - lo) \<in> {0..<nat (hi - lo)}"
      by auto
    then show "z \<in> (\<lambda>k. lo + int k) ` {0..<nat (hi - lo)}"
      by (rule image_eqI)
  qed
  then show ?thesis
    by (auto simp: py_range_def)
qed

text \<open>
  The extent of a z-block as lines 202 to 210 compute it: the block starts at
  \<open>zid * zyx_sz[0] + zyx0[0]\<close>, \<open>zz[0]\<close> later unless \<open>zid = 0\<close>; it ends at
  \<open>(zid + 1) * zyx_sz[0] + zyx0[0] + zz[0]\<close>, and \<open>zz[1]\<close> later under the guard
  \<open>zid == zz[2]\<close>.
\<close>

lemma z_extent_value:
  "z_extent sz0 o0 (zz0, zz1, zz2) zid =
     (zid * sz0 + o0 + (if zid = 0 then 0 else zz0),
      (zid + 1) * sz0 + o0 + zz0 + (if zid = zz2 then zz1 else 0))"
  by (simp add: z_extent_def Let_def)

text \<open>
  With \<open>zz[2] > 0\<close>, lines 197 and 198 clamp \<open>d1\<close> to \<open>zz[2]\<close> and the loop runs over
  \<open>range(d0, d1)\<close>: the block \<open>zz[2]\<close> itself is never visited, so the guard
  \<open>zid == zz[2]\<close> of line 209 is never true and no visited block receives \<open>zz[1]\<close>.
\<close>

lemma zblock_below_last:
  assumes pos: "zz2 > 0"
    and rng: "z_block_range z0 z1 sz0 o0 (zz0, zz1, zz2) = Inr (d0, d1)"
    and mem: "zid \<in> set (py_range d0 d1)"
  shows "zid < zz2"
proof -
  from rng pos have "d1 \<le> zz2"
    by (auto simp: z_block_range_def floordiv_def split: if_splits)
  moreover from mem have "zid < d1"
    by (simp add: py_range_set)
  ultimately show ?thesis
    by simp
qed

lemma trail_never_applied:
  assumes pos: "zz2 > 0"
    and rng: "z_block_range z0 z1 sz0 o0 (zz0, zz1, zz2) = Inr (d0, d1)"
    and mem: "zid \<in> set (py_range d0 d1)"
  shows "snd (z_extent sz0 o0 (zz0, zz1, zz2) zid) = (zid + 1) * sz0 + o0 + zz0"
  using zblock_below_last [OF pos rng mem] by (simp add: z_extent_value)

text \<open>
  Claim C8 at \<open>zyx_sz[0] = 10\<close>, \<open>zyx0[0] = 0\<close>, \<open>zz = [2, 3, 5]\<close> and the request
  \<open>z0 = 0\<close>, \<open>z1 = 100\<close>. The loop visits the blocks 0 to 4. Block 0 starts at its
  nominal offset and the blocks after it start \<open>zz[0] = 2\<close> slices later, as the claim
  says; but every visited block ends \<open>zz[0] = 2\<close> slices after its nominal end, none
  ends \<open>zz[1] = 3\<close> slices later, and block \<open>zz[2] = 5\<close>, the last logical block, whose
  extent would be \<open>[52, 65)\<close> with the trail, is never visited, so the slices from 52 on
  are never read. The comments of lines 171, 172 and 206 describe \<open>zz[2]\<close> as the last
  block and every block as ending with the extra \<open>zz[0] + zz[1]\<close>.
\<close>

theorem z_last_block_never_visited:
  "z_block_range 0 100 10 0 (2, 3, 5) = Inr (0, 5)
   \<and> py_range 0 5 = [0, 1, 2, 3, 4]
   \<and> map (z_extent 10 0 (2, 3, 5)) (py_range 0 5)
       = [(0, 12), (12, 22), (22, 32), (32, 42), (42, 52)]
   \<and> z_extent 10 0 (2, 3, 5) 5 = (52, 65)"
  by code_simp

section \<open>Properties of the box merge\<close>

lemma list2_cases:
  "(xs = [] \<Longrightarrow> P) \<Longrightarrow> (\<And>x. xs = [x] \<Longrightarrow> P) \<Longrightarrow> (\<And>x y zs. xs = x # y # zs \<Longrightarrow> P) \<Longrightarrow> P"
  by (cases xs; cases "tl xs") auto

lemma merge_bbox_length:
  "length a = length b \<Longrightarrow> even (length a) \<Longrightarrow> length (merge_bbox a b) = length a"
  by (induction a b rule: merge_bbox.induct) auto

lemma merge_bbox_contains:
  "length a = length b \<Longrightarrow> even (length a) \<Longrightarrow>
     box_contains (merge_bbox a b) a \<and> box_contains (merge_bbox a b) b"
  by (induction a b rule: merge_bbox.induct) auto

lemma merge_bbox_least:
  "box_contains z a \<Longrightarrow> box_contains z b \<Longrightarrow> box_contains z (merge_bbox a b)"
proof (induction z a arbitrary: b rule: box_contains.induct)
  case 1
  then show ?case by simp
next
  case (2 x0 x1 xs y0 y1 ys)
  then show ?case
    by (cases b rule: list2_cases) auto
qed simp_all

lemma merge_bbox_commute: "merge_bbox a b = merge_bbox b a"
  by (induction a b rule: merge_bbox.induct) (auto simp: min.commute max.commute)

lemma merge_bbox_assoc: "merge_bbox (merge_bbox a b) c = merge_bbox a (merge_bbox b c)"
proof (induction a b arbitrary: c rule: merge_bbox.induct)
  case (1 a0 a1 as b0 b1 bs)
  then show ?case
    by (cases c rule: list2_cases) (auto simp: min.assoc max.assoc)
qed simp_all

lemma select_rows_map: "select_rows xs (map P xs) = filter P xs"
  by (induction xs) (auto simp: select_rows_def)

lemma where_true_snoc:
  "where_true (ms @ [m]) = where_true ms @ (if m then [length ms] else [])"
proof -
  have "filter (\<lambda>i. (ms @ [m]) ! i) [0..<length ms] = filter (\<lambda>i. ms ! i) [0..<length ms]"
    by (rule filter_cong) (auto simp: nth_append)
  then show ?thesis
    by (simp add: where_true_def)
qed

lemma where_true_bound: "i \<in> set (where_true ms) \<Longrightarrow> i < length ms"
  by (simp add: where_true_def)

lemma where_true_nth: "map ((!) xs) (where_true (map P xs)) = filter P xs"
proof (induction xs rule: rev_induct)
  case Nil
  then show ?case by (simp add: where_true_def)
next
  case (snoc x xs)
  have "map ((!) (xs @ [x])) (where_true (map P xs)) = map ((!) xs) (where_true (map P xs))"
    by (rule map_cong) (auto simp: nth_append dest: where_true_bound)
  with snoc show ?case
    by (simp add: where_true_snoc)
qed

lemma assign_rows_with_id_char:
  "\<forall>r\<in>set b. length r = Suc (length box) \<Longrightarrow>
   assign_rows_with_id k box b = Inr (map (\<lambda>r. if hd r = k then hd r # box else r) b)"
  by (induction b) (auto simp: assign_box_def)

lemma filter_distinct_key:
  "distinct (map f xs) \<Longrightarrow> x \<in> set xs \<Longrightarrow> filter (\<lambda>y. f y = f x) xs = [x]"
proof (induction xs)
  case Nil
  then show ?case by simp
next
  case (Cons a xs)
  show ?case
  proof (cases "a = x")
    case True
    with Cons.prems have "f x \<notin> f ` set xs"
      by simp
    then have "filter (\<lambda>y. f y = f x) xs = []"
      unfolding filter_empty_conv by (metis imageI)
    with True show ?thesis by simp
  next
    case False
    with Cons show ?thesis by auto
  qed
qed

lemma find_None_key: "k \<notin> f ` set xs \<Longrightarrow> find (\<lambda>x. f x = k) xs = None"
  by (induction xs) auto

lemma hd_merged_row: "hd (merged_row a r) = hd r"
  by (simp add: merged_row_def split: option.splits)

lemma merge_loop_char:
  assumes "\<forall>r\<in>set b. length r = 1 + 2 * d"
    and "distinct (map hd b)"
    and "\<forall>i\<in>set js. length (a ! i) = 1 + 2 * d \<and> hd (a ! i) \<in> hd ` set b"
    and "distinct (map (\<lambda>i. hd (a ! i)) js)"
  shows "merge_loop a js b = Inr (map (merged_row (map ((!) a) js)) b)"
  using assms
proof (induction js arbitrary: b)
  case Nil
  then show ?case by (simp add: merged_row_def)
next
  case (Cons i js)
  define k where "k = hd (a ! i)"
  from Cons.prems(3) obtain rb where rb: "rb \<in> set b" "hd rb = k"
    by (auto simp: k_def)
  with Cons.prems(2) have flt: "filter (\<lambda>r. hd r = k) b = [rb]"
    using filter_distinct_key [of hd b rb] by simp
  define box where "box = merge_bbox (tl (a ! i)) (tl rb)"
  have len_a: "length (tl (a ! i)) = 2 * d" and len_b: "length (tl rb) = 2 * d"
    using Cons.prems(1,3) rb by auto
  then have len_box: "length box = 2 * d"
    by (simp add: box_def merge_bbox_length)
  define b1 where "b1 = map (\<lambda>r. if hd r = k then hd r # box else r) b"
  have asg: "assign_rows_with_id k box b = Inr b1"
    unfolding b1_def using Cons.prems(1) len_box
    by (intro assign_rows_with_id_char) simp
  have ids: "map hd b1 = map hd b"
    by (simp add: b1_def)
  have "merge_loop a js b1 = Inr (map (merged_row (map ((!) a) js)) b1)"
  proof (rule Cons.IH)
    show "\<forall>r\<in>set b1. length r = 1 + 2 * d"
      using Cons.prems(1) len_box by (auto simp: b1_def)
    show "distinct (map hd b1)"
      using Cons.prems(2) by (simp add: ids)
    have "hd ` set b1 = hd ` set b"
      using ids by (metis list.set_map)
    then show "\<forall>i\<in>set js. length (a ! i) = 1 + 2 * d \<and> hd (a ! i) \<in> hd ` set b1"
      using Cons.prems(3) by simp
    show "distinct (map (\<lambda>i. hd (a ! i)) js)"
      using Cons.prems(4) by simp
  qed
  moreover have "map (merged_row (map ((!) a) js)) b1 = map (merged_row (map ((!) a) (i # js))) b"
  proof -
    have notin: "k \<notin> hd ` set (map ((!) a) js)"
      using Cons.prems(4) by (auto simp: k_def)
    have "merged_row (map ((!) a) js) (if hd r = k then hd r # box else r)
          = merged_row (map ((!) a) (i # js)) r" if "r \<in> set b" for r
    proof (cases "hd r = k")
      case True
      with that rb Cons.prems(2) have "r = rb"
        by (meson distinct_map inj_onD)
      with True notin show ?thesis
        by (simp add: merged_row_def find_None_key box_def k_def)
    next
      case False
      then show ?thesis
        by (simp add: merged_row_def k_def)
    qed
    then show ?thesis
      by (simp add: b1_def)
  qed
  ultimately show ?case
    using flt asg by (simp add: Let_def k_def [symmetric] box_def [symmetric])
qed

lemma find_filter_weaken: "(\<And>x. Q x \<Longrightarrow> P x) \<Longrightarrow> find Q (filter P xs) = find Q xs"
  by (induction xs) auto

lemma vstack_same_width: "\<forall>r\<in>set (x @ y). length r = n \<Longrightarrow> vstack x y = Inr (x @ y)"
proof (cases "x @ y")
  case Nil
  then show ?thesis by (simp add: vstack_def)
next
  case (Cons r rs)
  assume "\<forall>r\<in>set (x @ y). length r = n"
  with Cons have "length r = n" "\<forall>q\<in>set rs. length q = n"
    by auto
  with Cons show ?thesis
    by (simp add: vstack_def list_all_iff)
qed

lemma merge_two_char:
  assumes wa: "box_matrix d a" and wb: "box_matrix d b"
  shows "merge_bbox_two_matrices (Some a) (Some b) =
           Inr \<lparr>returned = Some (filter (\<lambda>r. hd r \<notin> hd ` set b) a @ map (merged_row a) b),
                matrix_a_after = Some a,
                matrix_b_after = Some (map (merged_row a) b)\<rparr>"
proof -
  define P where "P = (\<lambda>r::row. hd r \<in> hd ` set b)"
  from wa wb have la: "\<forall>r\<in>set a. length r = 1 + 2 * d" and lb: "\<forall>r\<in>set b. length r = 1 + 2 * d"
    and da: "distinct (map hd a)" and db: "distinct (map hd b)"
    by (auto simp: box_matrix_def list_all_iff)
  have nonempty: "\<not> list_ex (\<lambda>r. r = []) (a @ b)"
    using la lb by (auto simp: list_ex_iff)
  have isect: "in1d (map hd a) (map hd b) = map P a"
    by (simp add: in1d_def P_def)
  have mrow: "map (merged_row (filter P a)) b = map (merged_row a) b"
  proof (rule map_cong [OF refl])
    fix r assume "r \<in> set b"
    then have "find (\<lambda>ra. hd ra = hd r) (filter P a) = find (\<lambda>ra. hd ra = hd r) a"
      by (intro find_filter_weaken) (auto simp: P_def)
    then show "merged_row (filter P a) r = merged_row a r"
      by (simp add: merged_row_def)
  qed
  have sel: "select_rows a (map Not (map P a)) = filter (\<lambda>r. \<not> P r) a"
    using select_rows_map [of a "\<lambda>r. \<not> P r"] by (simp add: comp_def)
  have loop: "merge_loop a (where_true (map P a)) b = Inr (map (merged_row a) b)"
  proof -
    have "merge_loop a (where_true (map P a)) b
          = Inr (map (merged_row (map ((!) a) (where_true (map P a)))) b)"
    proof (rule merge_loop_char [where d = d])
      show "\<forall>r\<in>set b. length r = 1 + 2 * d" by (rule lb)
      show "distinct (map hd b)" by (rule db)
      show "\<forall>i\<in>set (where_true (map P a)). length (a ! i) = 1 + 2 * d \<and> hd (a ! i) \<in> hd ` set b"
        using la by (auto simp: where_true_def P_def)
      have "map (\<lambda>i. hd (a ! i)) (where_true (map P a)) = map hd (map ((!) a) (where_true (map P a)))"
        by simp
      also have "\<dots> = map hd (filter P a)"
        by (simp only: where_true_nth)
      finally show "distinct (map (\<lambda>i. hd (a ! i)) (where_true (map P a)))"
        using da by (simp add: distinct_map_filter)
    qed
    then show ?thesis
      by (simp only: where_true_nth mrow)
  qed
  have vs: "vstack (filter (\<lambda>r. \<not> P r) a) (map (merged_row a) b)
            = Inr (filter (\<lambda>r. \<not> P r) a @ map (merged_row a) b)"
  proof (rule vstack_same_width [where n = "1 + 2 * d"])
    have "length (merged_row a r) = 1 + 2 * d" if "r \<in> set b" for r
    proof (cases "find (\<lambda>ra. hd ra = hd r) a")
      case None
      with that lb show ?thesis by (simp add: merged_row_def)
    next
      case (Some ra)
      then have "ra \<in> set a"
        by (auto simp: find_Some_iff)
      with la lb that have "length (tl ra) = 2 * d" "length (tl r) = 2 * d"
        by auto
      with Some show ?thesis
        by (simp add: merged_row_def merge_bbox_length)
    qed
    with la show "\<forall>r\<in>set (filter (\<lambda>r. \<not> P r) a @ map (merged_row a) b). length r = 1 + 2 * d"
      by auto
  qed
  have main: "merge_bbox_two_matrices (Some a) (Some b) =
           Inr \<lparr>returned = Some (filter (\<lambda>r. \<not> P r) a @ map (merged_row a) b),
                matrix_a_after = Some a,
                matrix_b_after = Some (map (merged_row a) b)\<rparr>"
  proof (cases "length (filter id (map P a)) = 0")
    case True
    then have none: "\<forall>r\<in>set a. \<not> P r"
      by (auto simp: filter_empty_conv)
    then have fa: "filter (\<lambda>r. \<not> P r) a = a"
      by simp
    have "merged_row a r = r" if "r \<in> set b" for r
    proof -
      have "hd r \<notin> hd ` set a"
        using none that unfolding P_def by (metis imageE imageI)
      then show ?thesis
        by (simp add: merged_row_def find_None_key)
    qed
    then have mb: "map (merged_row a) b = b"
      by (simp add: map_idI)
    from vs have vab: "vstack a b = Inr (a @ b)"
      by (simp only: fa mb)
    show ?thesis
      by (simp only: merge_bbox_two_matrices_def Let_def isect option.case nonempty if_False
            True if_True vab sum.case fa mb simp_thms)
  next
    case False
    show ?thesis
      by (simp only: merge_bbox_two_matrices_def Let_def isect option.case nonempty if_False
            False loop sum.case sel vs simp_thms)
  qed
  then show ?thesis
    by (simp add: P_def)
qed

lemma find_distinct_key:
  "distinct (map f xs) \<Longrightarrow> x \<in> set xs \<Longrightarrow> find (\<lambda>y. f y = f x) xs = Some x"
proof (induction xs)
  case Nil
  then show ?case by simp
next
  case (Cons a xs)
  show ?case
  proof (cases "a = x")
    case True
    then show ?thesis by simp
  next
    case False
    with Cons.prems have "x \<in> set xs" "f a \<notin> f ` set xs"
      by auto
    then have "f a \<noteq> f x"
      by (metis imageI)
    with Cons \<open>x \<in> set xs\<close> show ?thesis
      by simp
  qed
qed

lemma box_of_id_row:
  "distinct (map hd t) \<Longrightarrow> r \<in> set t \<Longrightarrow> box_of_id t (hd r) = Some (tl r)"
  by (simp add: box_of_id_def find_distinct_key)

lemma box_of_id_None: "k \<notin> hd ` set t \<Longrightarrow> box_of_id t k = None"
  by (simp add: box_of_id_def find_None_key)

text \<open>
  Claim C1. For box matrices \<open>a\<close> and \<open>b\<close> over \<open>d\<close> axes (rows
  \<open>[id, min, max, ...]\<close> of width \<open>1 + 2 * d\<close>, no id twice in a table),
  \<open>merge_bbox_two_matrices(a, b)\<close> returns a table whose ids are exactly the ids of
  \<open>a\<close> and of \<open>b\<close>, one row per id. The row of an id that both tables hold has a box
  that contains both source boxes and is contained in every box that contains both; the
  row of an id that only one table holds is that table's row.
\<close>

theorem merge_tables_union:
  assumes wa: "box_matrix d a" and wb: "box_matrix d b"
  shows "\<exists>out t. merge_bbox_two_matrices (Some a) (Some b) = Inr out \<and> returned out = Some t
     \<and> set (map hd t) = set (map hd a) \<union> set (map hd b)
     \<and> distinct (map hd t)
     \<and> (\<forall>r\<in>set t.
           case (box_of_id a (hd r), box_of_id b (hd r)) of
             (Some ba, Some bb) \<Rightarrow>
                box_contains (tl r) ba \<and> box_contains (tl r) bb
                \<and> (\<forall>z. box_contains z ba \<and> box_contains z bb \<longrightarrow> box_contains z (tl r))
           | (Some ba, None) \<Rightarrow> r \<in> set a
           | (None, Some bb) \<Rightarrow> r \<in> set b
           | (None, None) \<Rightarrow> False)"
proof -
  define t where "t = filter (\<lambda>r. hd r \<notin> hd ` set b) a @ map (merged_row a) b"
  from wa wb have la: "\<forall>r\<in>set a. length r = 1 + 2 * d" and lb: "\<forall>r\<in>set b. length r = 1 + 2 * d"
    and da: "distinct (map hd a)" and db: "distinct (map hd b)"
    by (auto simp: box_matrix_def list_all_iff)
  have ids: "map hd t = map hd (filter (\<lambda>r. hd r \<notin> hd ` set b) a) @ map hd b"
    by (simp add: t_def hd_merged_row)
  have ids_set: "set (map hd t) = set (map hd a) \<union> set (map hd b)"
    unfolding ids by auto
  have ids_distinct: "distinct (map hd t)"
    unfolding ids using da db by (auto simp: distinct_map_filter)
  have rows: "case (box_of_id a (hd r), box_of_id b (hd r)) of
             (Some ba, Some bb) \<Rightarrow>
                box_contains (tl r) ba \<and> box_contains (tl r) bb
                \<and> (\<forall>z. box_contains z ba \<and> box_contains z bb \<longrightarrow> box_contains z (tl r))
           | (Some ba, None) \<Rightarrow> r \<in> set a
           | (None, Some bb) \<Rightarrow> r \<in> set b
           | (None, None) \<Rightarrow> False" if "r \<in> set t" for r
  proof -
    from that consider (A) "r \<in> set a" "hd r \<notin> hd ` set b"
      | (B) r0 where "r0 \<in> set b" "r = merged_row a r0"
      by (auto simp: t_def)
    then show ?thesis
    proof cases
      case A
      then show ?thesis
        by (simp add: box_of_id_row [OF da] box_of_id_None)
    next
      case B
      have bb: "box_of_id b (hd r) = Some (tl r0)"
        using B db by (simp add: hd_merged_row box_of_id_row)
      show ?thesis
      proof (cases "find (\<lambda>ra. hd ra = hd r0) a")
        case None
        then have "box_of_id a (hd r) = None"
          using B by (simp add: box_of_id_def hd_merged_row)
        moreover from None B have "r = r0"
          by (simp add: merged_row_def)
        ultimately show ?thesis
          using bb B by simp
      next
        case (Some ra)
        then have ra: "ra \<in> set a" "hd ra = hd r0"
          by (auto simp: find_Some_iff)
        have ba: "box_of_id a (hd r) = Some (tl ra)"
          using Some B by (simp add: box_of_id_def hd_merged_row)
        have tl: "tl r = merge_bbox (tl ra) (tl r0)"
          using Some B by (simp add: merged_row_def)
        have "length (tl ra) = 2 * d" "length (tl r0) = 2 * d"
          using la lb ra B by auto
        then have "box_contains (tl r) (tl ra) \<and> box_contains (tl r) (tl r0)"
          unfolding tl by (intro merge_bbox_contains) simp_all
        then show ?thesis
          using ba bb by (simp add: tl merge_bbox_least)
      qed
    qed
  qed
  show ?thesis
    using merge_two_char [OF wa wb] ids_set ids_distinct rows
    unfolding t_def [symmetric] by simp
qed

theorem merge_tables_union_witness:
  "box_matrix 2 [[1, 0, 5, 0, 5], [3, 1, 1, 1, 1]] \<and> box_matrix 2 [[2, 0, 1, 0, 1], [1, 2, 7, 2, 7]]
   \<and> map_sum id returned
        (merge_bbox_two_matrices (Some [[1, 0, 5, 0, 5], [3, 1, 1, 1, 1]])
           (Some [[2, 0, 1, 0, 1], [1, 2, 7, 2, 7]]))
       = Inr (Some [[3, 1, 1, 1, 1], [2, 0, 1, 0, 1], [1, 0, 7, 0, 7]])"
proof -
  have wa: "box_matrix 2 [[1, 0, 5, 0, 5], [3, 1, 1, 1, 1]]"
    and wb: "box_matrix 2 [[2, 0, 1, 0, 1], [1, 2, 7, 2, 7]]"
    by (simp_all add: box_matrix_def)
  have ev: "map_sum id returned
        (merge_bbox_two_matrices (Some [[1, 0, 5, 0, 5], [3, 1, 1, 1, 1]])
           (Some [[2, 0, 1, 0, 1], [1, 2, 7, 2, 7]]))
       = Inr (Some [[3, 1, 1, 1, 1], [2, 0, 1, 0, 1], [1, 0, 7, 0, 7]])"
    by code_simp
  show ?thesis
    using merge_tables_union [OF wa wb] wa wb ev by simp
qed

lemma merged_rows_wf:
  assumes wa: "box_matrix d a" and wb: "box_matrix d b"
  shows "box_matrix d (filter (\<lambda>r. hd r \<notin> hd ` set b) a @ map (merged_row a) b)"
proof -
  from wa wb have la: "\<forall>r\<in>set a. length r = 1 + 2 * d" and lb: "\<forall>r\<in>set b. length r = 1 + 2 * d"
    and da: "distinct (map hd a)" and db: "distinct (map hd b)"
    by (auto simp: box_matrix_def list_all_iff)
  have "length (merged_row a r) = 1 + 2 * d" if "r \<in> set b" for r
  proof (cases "find (\<lambda>ra. hd ra = hd r) a")
    case None
    with that lb show ?thesis by (simp add: merged_row_def)
  next
    case (Some ra)
    then have "ra \<in> set a"
      by (auto simp: find_Some_iff)
    with la lb that have "length (tl ra) = 2 * d" "length (tl r) = 2 * d"
      by auto
    with Some show ?thesis
      by (simp add: merged_row_def merge_bbox_length)
  qed
  moreover have "distinct (map hd (filter (\<lambda>r. hd r \<notin> hd ` set b) a) @ map hd b)"
    using da db by (auto simp: distinct_map_filter)
  ultimately show ?thesis
    using la by (auto simp: box_matrix_def list_all_iff hd_merged_row comp_def)
qed

lemma merged_rows_boxes:
  assumes wa: "box_matrix d a" and wb: "box_matrix d b"
  shows "box_of_id (filter (\<lambda>r. hd r \<notin> hd ` set b) a @ map (merged_row a) b) k
         = combine_boxes (box_of_id a) (box_of_id b) k"
proof -
  define t where "t = filter (\<lambda>r. hd r \<notin> hd ` set b) a @ map (merged_row a) b"
  from wa wb have da: "distinct (map hd a)" and db: "distinct (map hd b)"
    by (auto simp: box_matrix_def)
  have dt: "distinct (map hd t)"
    using merged_rows_wf [OF wa wb] by (simp add: box_matrix_def t_def)
  have "box_of_id t k = combine_boxes (box_of_id a) (box_of_id b) k"
  proof (cases "k \<in> hd ` set b")
    case True
    then obtain r0 where B: "r0 \<in> set b" "hd r0 = k"
      by auto
    then have "merged_row a r0 \<in> set t"
      by (simp add: t_def)
    from box_of_id_row [OF dt this]
    have "box_of_id t k = Some (tl (merged_row a r0))"
      using B by (simp add: hd_merged_row)
    moreover have "box_of_id b k = Some (tl r0)"
      using box_of_id_row [OF db B(1)] B by simp
    ultimately show ?thesis
      using B by (simp add: combine_boxes_def merged_row_def box_of_id_def split: option.splits)
  next
    case nb: False
    show ?thesis
    proof (cases "k \<in> hd ` set a")
      case True
      then obtain r where A: "r \<in> set a" "hd r = k"
        by auto
      with nb have "r \<in> set t"
        by (simp add: t_def)
      from box_of_id_row [OF dt this] box_of_id_row [OF da A(1)] A nb
      show ?thesis
        by (simp add: combine_boxes_def box_of_id_None)
    next
      case False
      with nb have "k \<notin> hd ` set t"
        by (auto simp: t_def hd_merged_row)
      with nb False show ?thesis
        by (simp add: combine_boxes_def box_of_id_None)
    qed
  qed
  then show ?thesis
    by (simp add: t_def)
qed

lemma combine_boxes_swap:
  "combine_boxes (combine_boxes m x) y = combine_boxes (combine_boxes m y) x"
proof
  fix k
  have "merge_bbox (merge_bbox p q) r = merge_bbox (merge_bbox p r) q" for p q r
    by (metis merge_bbox_assoc merge_bbox_commute)
  then show "combine_boxes (combine_boxes m x) y k = combine_boxes (combine_boxes m y) x k"
    by (auto simp: combine_boxes_def merge_bbox_commute split: option.splits)
qed

lemma boxes_of_Some: "boxes_of (Some t) = box_of_id t"
  by (rule ext) (simp add: boxes_of_def)

lemma fold_char:
  assumes "\<forall>t\<in>set ts. box_matrix d t"
    and "case out of None \<Rightarrow> True | Some a \<Rightarrow> box_matrix d a"
  shows "\<exists>r. merge_bbox_tile_fold out ts = Inr r
           \<and> (case r of None \<Rightarrow> True | Some a \<Rightarrow> box_matrix d a)
           \<and> (r = None \<longleftrightarrow> out = None \<and> ts = [])
           \<and> boxes_of r = fold (\<lambda>t m. combine_boxes m (box_of_id t)) ts (boxes_of out)"
  using assms
proof (induction ts arbitrary: out)
  case Nil
  then show ?case by simp
next
  case (Cons t ts)
  then have wt: "box_matrix d t"
    by simp
  show ?case
  proof (cases out)
    case None
    have "boxes_of (Some t) = combine_boxes (boxes_of None) (box_of_id t)"
      by (rule ext) (simp add: boxes_of_def combine_boxes_def)
    with Cons.IH [of "Some t"] Cons.prems wt None show ?thesis
      by (simp add: merge_bbox_two_matrices_def)
  next
    case (Some a)
    with Cons.prems have wa: "box_matrix d a"
      by simp
    define u where "u = filter (\<lambda>r. hd r \<notin> hd ` set t) a @ map (merged_row a) t"
    have "boxes_of (Some u) = combine_boxes (boxes_of (Some a)) (box_of_id t)"
      by (rule ext) (simp add: boxes_of_Some u_def merged_rows_boxes [OF wa wt])
    with Cons.IH [of "Some u"] Cons.prems merged_rows_wf [OF wa wt] Some show ?thesis
      by (simp add: merge_two_char [OF wa wt] u_def)
  qed
qed

lemma rows_of_boxes:
  assumes wt: "box_matrix d t" and wu: "box_matrix d u"
    and eq: "box_of_id t = box_of_id u" and r: "r \<in> set t"
  shows "r \<in> set u"
proof -
  from wt r have "box_of_id t (hd r) = Some (tl r)" and ne: "r \<noteq> []"
    by (auto simp: box_matrix_def list_all_iff box_of_id_row)
  with eq have "box_of_id u (hd r) = Some (tl r)"
    by simp
  then obtain q where q: "find (\<lambda>x. hd x = hd r) u = Some q" "tl q = tl r"
    by (auto simp: box_of_id_def)
  then have "q \<in> set u" "hd q = hd r"
    by (auto simp: find_Some_iff)
  moreover from this wu have "q \<noteq> []"
    by (auto simp: box_matrix_def list_all_iff)
  ultimately show ?thesis
    using q ne by (metis list.expand)
qed

lemma same_boxes_same_rows:
  assumes wt: "box_matrix d t" and wu: "box_matrix d u" and eq: "box_of_id t = box_of_id u"
  shows "mset t = mset u"
proof -
  have "set t = set u"
    using rows_of_boxes [OF wt wu eq] rows_of_boxes [OF wu wt eq [symmetric]] by blast
  moreover from wt wu have "distinct t" "distinct u"
    by (auto simp: box_matrix_def distinct_map)
  ultimately show ?thesis
    by (simp add: set_eq_iff_mset_eq_distinct)
qed

text \<open>
  Claim C3, as the code has it. Folding per-tile box matrices \<open>ts\<close> (each over \<open>d\<close>
  axes, no id twice in a tile) with \<open>merge_bbox_two_matrices\<close> from \<open>None\<close> returns,
  for every permutation \<open>ts'\<close> of the fold order, a table with the same rows: the same
  ids, one row per id, the same box for each id. The order of the rows in the returned
  matrix is not part of the statement; it follows the fold order.
\<close>

theorem fold_order_independent:
  assumes perm: "mset ts = mset ts'" and wf: "\<forall>t\<in>set ts. box_matrix d t"
  shows "\<exists>r r'. merge_bbox_tile_fold None ts = Inr r \<and> merge_bbox_tile_fold None ts' = Inr r'
           \<and> map_option mset r = map_option mset r'
           \<and> (case r of None \<Rightarrow> ts = [] | Some t \<Rightarrow> box_matrix d t)"
proof -
  from perm have sets: "set ts' = set ts"
    by (metis set_mset_mset)
  with wf have wf': "\<forall>t\<in>set ts'. box_matrix d t"
    by simp
  from fold_char [OF wf, of None] obtain r where r: "merge_bbox_tile_fold None ts = Inr r"
    "case r of None \<Rightarrow> True | Some a \<Rightarrow> box_matrix d a" "r = None \<longleftrightarrow> ts = []"
    "boxes_of r = fold (\<lambda>t m. combine_boxes m (box_of_id t)) ts (boxes_of None)"
    by auto
  from fold_char [OF wf', of None] obtain r' where r': "merge_bbox_tile_fold None ts' = Inr r'"
    "case r' of None \<Rightarrow> True | Some a \<Rightarrow> box_matrix d a" "r' = None \<longleftrightarrow> ts' = []"
    "boxes_of r' = fold (\<lambda>t m. combine_boxes m (box_of_id t)) ts' (boxes_of None)"
    by auto
  have "fold (\<lambda>t m. combine_boxes m (box_of_id t)) ts = fold (\<lambda>t m. combine_boxes m (box_of_id t)) ts'"
    by (rule fold_multiset_equiv [OF _ perm]) (auto simp: fun_eq_iff combine_boxes_swap)
  with r(4) r'(4) have eq: "boxes_of r = boxes_of r'"
    by simp
  from perm have empty: "ts = [] \<longleftrightarrow> ts' = []"
    by (metis mset_zero_iff)
  have "map_option mset r = map_option mset r'"
  proof (cases r)
    case None
    with r(3) r'(3) empty show ?thesis by simp
  next
    case (Some t)
    with r(3) r'(3) empty obtain u where u: "r' = Some u"
      by (cases r') auto
    with Some r(2) r'(2) eq have "mset t = mset u"
      by (intro same_boxes_same_rows [where d = d]) (simp_all add: boxes_of_Some)
    with Some u show ?thesis by simp
  qed
  with r r' show ?thesis
    by (auto split: option.splits)
qed

theorem fold_order_independent_witness:
  "mset [[[1, 0, 5, 0, 5]], [[2, 0, 1, 0, 1], [1, 2, 7, 2, 7]]]
     = mset [[[2, 0, 1, 0, 1], [1, 2, 7, 2, 7]], [[1, 0, 5, 0, 5]]]
   \<and> list_all (box_matrix 2) [[[1, 0, 5, 0, 5]], [[2, 0, 1, 0, 1], [1, 2, 7, 2, 7]]]
   \<and> merge_bbox_tile_fold None [[[1, 0, 5, 0, 5]], [[2, 0, 1, 0, 1], [1, 2, 7, 2, 7]]]
       = Inr (Some [[2, 0, 1, 0, 1], [1, 0, 7, 0, 7]])
   \<and> merge_bbox_tile_fold None [[[2, 0, 1, 0, 1], [1, 2, 7, 2, 7]], [[1, 0, 5, 0, 5]]]
       = Inr (Some [[2, 0, 1, 0, 1], [1, 0, 7, 0, 7]])"
proof -
  have p: "mset [[[1, 0, 5, 0, 5]], [[2, 0, 1, 0, 1], [1, 2, 7, 2, 7::int]]]
     = mset [[[2, 0, 1, 0, 1], [1, 2, 7, 2, 7]], [[1, 0, 5, 0, 5]]]"
    by simp
  have w: "\<forall>t\<in>set [[[1, 0, 5, 0, 5]], [[2, 0, 1, 0, 1], [1, 2, 7, 2, 7]]]. box_matrix 2 t"
    by (simp add: box_matrix_def)
  have e1: "merge_bbox_tile_fold None [[[1, 0, 5, 0, 5]], [[2, 0, 1, 0, 1], [1, 2, 7, 2, 7]]]
       = Inr (Some [[2, 0, 1, 0, 1], [1, 0, 7, 0, 7]])"
    by code_simp
  have e2: "merge_bbox_tile_fold None [[[2, 0, 1, 0, 1], [1, 2, 7, 2, 7]], [[1, 0, 5, 0, 5]]]
       = Inr (Some [[2, 0, 1, 0, 1], [1, 0, 7, 0, 7]])"
    by code_simp
  show ?thesis
    using fold_order_independent [OF p w] p w e1 e2 by (simp add: list_all_iff)
qed

theorem fold_row_order_counterexample:
  "merge_bbox_tile_fold None [[[1, 0, 5, 0, 5]], [[2, 0, 1, 0, 1]]]
   \<noteq> merge_bbox_tile_fold None [[[2, 0, 1, 0, 1]], [[1, 0, 5, 0, 5]]]"
  by code_simp

lemma merged_row_other: "hd r \<notin> hd ` set a \<Longrightarrow> merged_row a r = r"
  by (simp add: merged_row_def find_None_key)

text \<open>
  Claim C9, as the code has it. For box matrices \<open>a\<close> and \<open>b\<close>,
  \<open>merge_bbox_two_matrices(a, b)\<close> leaves \<open>a\<close> as it was, and writes \<open>b\<close> in place:
  after the call \<open>b\<close> has the same ids in the same rows; a row whose id occurs in
  \<open>a\<close> with the box \<open>ba\<close> holds the merged box \<open>merge_bbox(ba, bb)\<close> in place of its
  own box \<open>bb\<close>; every row whose id does not occur in \<open>a\<close> is unchanged, and \<open>b\<close>
  is unchanged altogether when the two tables share no id. The returned table is the rows
  of \<open>a\<close> whose id is not in \<open>b\<close> followed by the rows \<open>b\<close> holds after the call.
\<close>

theorem merge_frame:
  assumes wa: "box_matrix d a" and wb: "box_matrix d b"
  shows "\<exists>out b'. merge_bbox_two_matrices (Some a) (Some b) = Inr out
           \<and> matrix_a_after out = Some a
           \<and> matrix_b_after out = Some b'
           \<and> map hd b' = map hd b
           \<and> (\<forall>i<length b. \<forall>ba. box_of_id a (hd (b ! i)) = Some ba \<longrightarrow>
                  b' ! i = hd (b ! i) # merge_bbox ba (tl (b ! i)))
           \<and> (\<forall>i<length b. hd (b ! i) \<notin> hd ` set a \<longrightarrow> b' ! i = b ! i)
           \<and> (hd ` set a \<inter> hd ` set b = {} \<longrightarrow> b' = b)
           \<and> returned out = Some (filter (\<lambda>r. hd r \<notin> hd ` set b) a @ b')"
proof -
  have "map hd (map (merged_row a) b) = map hd b"
    by (simp add: hd_merged_row)
  moreover have "\<forall>i<length b. \<forall>ba. box_of_id a (hd (b ! i)) = Some ba \<longrightarrow>
                  map (merged_row a) b ! i = hd (b ! i) # merge_bbox ba (tl (b ! i))"
    by (auto simp: merged_row_def box_of_id_def)
  moreover have "\<forall>i<length b. hd (b ! i) \<notin> hd ` set a \<longrightarrow> map (merged_row a) b ! i = b ! i"
    by (simp add: merged_row_other)
  moreover have "hd ` set a \<inter> hd ` set b = {} \<longrightarrow> map (merged_row a) b = b"
  proof
    assume "hd ` set a \<inter> hd ` set b = {}"
    then have "\<forall>r\<in>set b. hd r \<notin> hd ` set a"
      by blast
    then show "map (merged_row a) b = b"
      by (simp add: map_idI merged_row_other)
  qed
  ultimately show ?thesis
    using merge_two_char [OF wa wb] by simp
qed

theorem merge_frame_witness:
  "box_matrix 2 [[1, 0, 5, 0, 5], [3, 1, 1, 1, 1]] \<and> box_matrix 2 [[2, 0, 1, 0, 1], [1, 2, 7, 2, 7]]
   \<and> box_of_id [[1, 0, 5, 0, 5], [3, 1, 1, 1, 1]] 1 = Some [0, 5, 0, 5]
   \<and> 1 # merge_bbox [0, 5, 0, 5] [2, 7, 2, 7] = [1, 0, 7, 0, 7]
   \<and> map_sum id matrix_a_after
        (merge_bbox_two_matrices (Some [[1, 0, 5, 0, 5], [3, 1, 1, 1, 1]])
           (Some [[2, 0, 1, 0, 1], [1, 2, 7, 2, 7]]))
       = Inr (Some [[1, 0, 5, 0, 5], [3, 1, 1, 1, 1]])
   \<and> map_sum id matrix_b_after
        (merge_bbox_two_matrices (Some [[1, 0, 5, 0, 5], [3, 1, 1, 1, 1]])
           (Some [[2, 0, 1, 0, 1], [1, 2, 7, 2, 7]]))
       = Inr (Some [[2, 0, 1, 0, 1], [1, 0, 7, 0, 7]])"
proof -
  have wa: "box_matrix 2 [[1, 0, 5, 0, 5], [3, 1, 1, 1, 1]]"
    and wb: "box_matrix 2 [[2, 0, 1, 0, 1], [1, 2, 7, 2, 7]]"
    by (simp_all add: box_matrix_def)
  have ea: "map_sum id matrix_a_after
        (merge_bbox_two_matrices (Some [[1, 0, 5, 0, 5], [3, 1, 1, 1, 1]])
           (Some [[2, 0, 1, 0, 1], [1, 2, 7, 2, 7]]))
       = Inr (Some [[1, 0, 5, 0, 5], [3, 1, 1, 1, 1]])"
    by code_simp
  have eb: "map_sum id matrix_b_after
        (merge_bbox_two_matrices (Some [[1, 0, 5, 0, 5], [3, 1, 1, 1, 1]])
           (Some [[2, 0, 1, 0, 1], [1, 2, 7, 2, 7]]))
       = Inr (Some [[2, 0, 1, 0, 1], [1, 0, 7, 0, 7]])"
    by code_simp
  have bx: "box_of_id [[1, 0, 5, 0, 5], [3, 1, 1, 1, 1]] 1 = Some [0, 5, 0, 5]"
    and mb: "1 # merge_bbox [0, 5, 0, 5] [2, 7, 2, 7] = [1, 0, 7, 0, 7]"
    by (simp_all add: box_of_id_def)
  show ?thesis
    using merge_frame [OF wa wb] wa wb ea eb bx mb by simp
qed

theorem merge_writes_b_counterexample:
  "map_sum id matrix_b_after
     (merge_bbox_two_matrices (Some [[1, 0, 5, 0, 5]]) (Some [[1, 2, 7, 2, 7]]))
   \<noteq> Inr (Some [[1, 2, 7, 2, 7]])"
  by code_simp

section \<open>Properties of the blank-slice repair\<close>

text \<open>
  Claim C4 at the stack of slices \<open>[A, B, 0]\<close> with \<open>A = [[1]]\<close>, \<open>B = [[2]]\<close> and a blank
  last slice. The repair finds \<open>blank_st = 0\<close> and \<open>blank_lt = 1\<close>, and line 150,
  \<open>result[blank_lt:] = result[blank_lt - 1 : blank_lt]\<close>, overwrites the non-blank slice
  \<open>B\<close> and the trailing blank slice with \<open>A\<close>: the trailing slice does not take its
  nearest non-blank neighbour \<open>B\<close>, and the slice \<open>B\<close>, which had foreground, is altered.
\<close>

theorem blank_repair_overwrites_last_slice:
  "blank_repair [[[1]], [[2]], [[0]]]
     = Inr \<lparr>volume = [[[1]], [[1]], [[1]]], warned_all_zero = False\<rparr>"
  by code_simp

lemma blank_repair_without_trailing_blank:
  "blank_repair [[[1]], [[2]]] = Inr \<lparr>volume = [[[1]], [[1]]], warned_all_zero = False\<rparr>"
  by code_simp

lemma blank_repair_single_leading_slice:
  "blank_repair [[[1]], [[0]]] = Inl ValueError"
  by code_simp

lemma blank_repair_all_blank:
  "blank_repair [[[0]], [[0]]] = Inr \<lparr>volume = [[[0]], [[0]]], warned_all_zero = True\<rparr>"
  by code_simp

section \<open>Properties of \<open>compute_bbox_all\<close>\<close>

text \<open>
  Claim C5 at the two-dimensional label map \<open>[[1]]\<close> with the caller-supplied ids
  \<open>uid = [1, 2]\<close>. Id 2 has no pixel; \<open>compute_bbox_all_2d\<close> returns \<open>out[uid]\<close>
  unfiltered, so the table holds the row \<open>[2, 1, 0, 1, 0]\<close>, the initial box
  \<open>[sz[0], 0, sz[1], 0]\<close> of id 2.
\<close>

theorem compute_bbox_all_2d_keeps_absent_id:
  "compute_bbox_all (Seg2 [[1]]) False (Some [1, 2])
     = Inr (Some [[1, 0, 0, 0, 0], [2, 1, 0, 1, 0]])"
  by code_simp

lemma compute_bbox_all_3d_drops_absent_id:
  "compute_bbox_all (Seg3 [[[1]]]) False (Some [1, 2]) = Inr (Some [[1, 0, 0, 0, 0, 0, 0]])"
  by code_simp

lemma compute_bbox_all_2d_example:
  "compute_bbox_all (Seg2 [[0, 1, 1], [0, 1, 0], [2, 0, 0]]) False None
     = Inr (Some [[1, 0, 1, 1, 2], [2, 2, 2, 0, 0]])"
  by code_simp

section \<open>Properties of \<open>read_tile_h5_by_bbox\<close>\<close>

lemma h5_in_memory_never_returns:
  "read_tile_h5_by_bbox h5_file chunk_dt h5_convert z0 z1 y0 y1 x0 x1 zyx_sz zyx0 dt zz tile_step zstep
     acc_id None tile_type \<noteq> Inr st"
  by (simp add: read_tile_h5_by_bbox_def Let_def split: sum.splits prod.splits)

text \<open>
  Claim C6 at a call with \<open>output_file = None\<close>: a one-voxel request on a grid without
  chunk files. The destination is allocated and the loops run, and the test
  \<open>'.h5' in output_file\<close> at line 273 raises \<open>TypeError\<close>; nothing is returned. By
  \<open>h5_in_memory_never_returns\<close> this is so for every call with \<open>output_file = None\<close>.
\<close>

theorem h5_in_memory_raises_type_error:
  "read_tile_h5_by_bbox no_chunks 16 saturate 0 1 0 1 0 1 (1, 1, 1) (0, 0, 0) 16 (0, 0, - 1) (1, 1) 1
     False None ''image'' = Inl TypeError"
  by code_simp

section \<open>Properties of \<open>read_tile_image_by_bbox\<close>\<close>


















section \<open>Properties of the chunk traversal and the id accumulation\<close>




lemma sum_case_id: "(case r of Inl e \<Rightarrow> Inl e | Inr t \<Rightarrow> Inr t) = r"
  by (cases r) auto
















text \<open>
  Outside these bounds the additions wrap. For chunks of an 8-bit dtype holding the ids
  200 and 100, the id of the second chunk is composited as \<open>(100 + 200) mod 256 = 44\<close>
  and the running maximum after both chunks is 44.
\<close>

lemma acc_id_wraps_in_chunk_dtype:
  "read_tile_h5_by_bbox large_id_chunks 8 saturate 0 1 0 1 0 2 (1, 1, 1) (0, 0, 0) 16 (0, 0, - 1) (1, 1) 1
     True (Some ''out.h5'') ''seg''
   = Inr \<lparr>mid = 44, dest = [[[200, 44]]], emitted = []\<rparr>"
  by code_simp

section \<open>Properties of \<open>compute_bbox\<close>\<close>

lemma length_unravel: "length (unravel ns k) = length ns"
  by (induction ns arbitrary: k) auto


lemma ravel_unravel: "k < prod_list ns \<Longrightarrow> ravel ns (unravel ns k) = k"
proof (induction ns arbitrary: k)
  case Nil
  then show ?case by simp
next
  case (Cons n ns)
  then have pos: "0 < prod_list ns"
    by (cases "prod_list ns") auto
  then have "k mod prod_list ns < prod_list ns"
    by simp
  from Cons.IH [OF this] show ?case
    by simp
qed


lemma upt_blocks:
  "[0..<n * p] = concat (map (\<lambda>i. map (\<lambda>j. i * p + j) [0..<p]) [0..<n])"
proof (induction n)
  case 0
  then show ?case by simp
next
  case (Suc n)
  have "[0..<Suc n * p] = [0..<n * p] @ [n * p..<n * p + p]"
    by (metis add.commute le_add1 mult_Suc upt_add_eq_append zero_le)
  moreover have "[n * p..<n * p + p] = map (\<lambda>j. n * p + j) [0..<p]"
    using map_add_upt [of "n * p" p] by (simp add: add.commute)
  ultimately show ?case
    using Suc by simp
qed


lemma unravel_all: "map (unravel ns) [0..<prod_list ns] = all_indices ns"
proof (induction ns)
  case Nil
  then show ?case by simp
next
  case (Cons n ns)
  define p where "p = prod_list ns"
  have step: "map (unravel (n # ns)) (map (\<lambda>j. i * p + j) [0..<p]) = map ((#) i) (all_indices ns)" for i
  proof -
    have "unravel (n # ns) (i * p + j) = i # unravel ns j" if "j < p" for j
      using that by (simp add: p_def)
    then have "map (unravel (n # ns)) (map (\<lambda>j. i * p + j) [0..<p]) = map (\<lambda>j. i # unravel ns j) [0..<p]"
      by simp
    also have "\<dots> = map ((#) i) (map (unravel ns) [0..<p])"
      by simp
    finally show ?thesis
      using Cons by (simp add: p_def)
  qed
  have "[0..<prod_list (n # ns)] = concat (map (\<lambda>i. map (\<lambda>j. i * p + j) [0..<p]) [0..<n])"
    using upt_blocks [of n p] by (simp add: p_def)
  then have "map (unravel (n # ns)) [0..<prod_list (n # ns)]
        = concat (map (\<lambda>i. map (unravel (n # ns)) (map (\<lambda>j. i * p + j) [0..<p])) [0..<n])"
    by (simp only: map_concat map_map comp_def)
  then show ?case
    by (simp only: step all_indices.simps)
qed


lemma scan_is_where:
  assumes "length (nd_data seg) = prod_list (nd_shape seg)"
  shows "scan_foreground seg = positive_coords seg"
proof -
  define ns where "ns = nd_shape seg"
  have "scan_foreground seg
        = filter (\<lambda>idx. nd_data seg ! ravel ns idx > 0) (map (unravel ns) [0..<prod_list ns])"
    by (simp add: scan_foreground_def value_at_def unravel_all ns_def)
  also have "\<dots> = map (unravel ns) (filter (\<lambda>k. nd_data seg ! ravel ns (unravel ns k) > 0) [0..<prod_list ns])"
    by (simp add: filter_map comp_def)
  also have "filter (\<lambda>k. nd_data seg ! ravel ns (unravel ns k) > 0) [0..<prod_list ns]
             = filter (\<lambda>k. nd_data seg ! k > 0) [0..<prod_list ns]"
    by (rule filter_cong) (simp_all add: ravel_unravel)
  finally show ?thesis
    using assms by (simp add: positive_coords_def ns_def)
qed


lemma bbox_axes_char:
  assumes "coords \<noteq> []"
  shows "bbox_axes (map (\<lambda>i. map (\<lambda>c. c ! i) coords) js)
         = Inr (concat (map (\<lambda>i. [int (Min ((\<lambda>c. c ! i) ` set coords)),
                                    int (Max ((\<lambda>c. c ! i) ` set coords))]) js))"
  using assms by (induction js) simp_all


lemma any_nonzero_positive:
  assumes "\<forall>v\<in>set (nd_data seg). 0 \<le> v"
  shows "list_ex (\<lambda>v. v \<noteq> 0) (nd_data seg) \<longleftrightarrow> positive_coords seg \<noteq> []"
proof
  assume "list_ex (\<lambda>v. v \<noteq> 0) (nd_data seg)"
  then obtain v where v: "v \<in> set (nd_data seg)" "v \<noteq> 0"
    by (auto simp: list_ex_iff)
  with assms have "0 < v"
    by fastforce
  from v(1) obtain k where k: "k < length (nd_data seg)" "nd_data seg ! k = v"
    by (auto simp: in_set_conv_nth)
  with \<open>0 < v\<close> have "k \<in> set (filter (\<lambda>k. nd_data seg ! k > 0) [0..<length (nd_data seg)])"
    by simp
  then have "filter (\<lambda>k. nd_data seg ! k > 0) [0..<length (nd_data seg)] \<noteq> []"
    by (metis empty_iff empty_set)
  then show "positive_coords seg \<noteq> []"
    by (simp add: positive_coords_def)
next
  assume "positive_coords seg \<noteq> []"
  then have "filter (\<lambda>k. nd_data seg ! k > 0) [0..<length (nd_data seg)] \<noteq> []"
    by (simp add: positive_coords_def)
  then obtain k where "k \<in> set (filter (\<lambda>k. nd_data seg ! k > 0) [0..<length (nd_data seg)])"
    by (meson last_in_set)
  then have "k < length (nd_data seg)" "nd_data seg ! k \<noteq> 0"
    by simp_all
  then show "list_ex (\<lambda>v. v \<noteq> 0) (nd_data seg)"
    unfolding list_ex_iff by (meson nth_mem)
qed

text \<open>
  Claim C2. For a mask of dimension at least one whose values are not negative (a 0/1
  mask, such as \<open>L == k\<close>), \<open>compute_bbox\<close> returns what the exhaustive scan of all
  coordinates computes: \<open>None\<close> when no position is foreground, and otherwise the
  minimum and maximum coordinate of the foreground positions for every axis in axis
  order, followed with \<open>do_count\<close> by the number of foreground positions.
\<close>

theorem compute_bbox_is_exhaustive_scan:
  assumes wf: "length (nd_data seg) = prod_list (nd_shape seg)"
    and mask: "\<forall>v\<in>set (nd_data seg). 0 \<le> v"
    and nd: "nd_shape seg \<noteq> []"
  shows "compute_bbox seg do_count = Inr (scan_bbox seg do_count)"
proof (cases "positive_coords seg = []")
  case True
  with any_nonzero_positive [OF mask] have nz: "\<not> list_ex (\<lambda>v. v \<noteq> 0) (nd_data seg)"
    by simp
  have "compute_bbox seg do_count = Inr None"
    using nz by (simp add: compute_bbox_def)
  moreover have "scan_bbox seg do_count = None"
    using True by (simp add: scan_bbox_def scan_is_where [OF wf])
  ultimately show ?thesis
    by simp
next
  case False
  with any_nonzero_positive [OF mask] have nz: "list_ex (\<lambda>v. v \<noteq> 0) (nd_data seg)"
    by simp
  define out where "out = concat (map (\<lambda>i. [int (Min ((\<lambda>c. c ! i) ` set (positive_coords seg))),
                                   int (Max ((\<lambda>c. c ! i) ` set (positive_coords seg)))])
                         [0..<length (nd_shape seg)])"
  from nd obtain n ns where ns: "nd_shape seg = n # ns"
    by (cases "nd_shape seg") auto
  have upt: "[0..<length (nd_shape seg)] = 0 # [1..<length (nd_shape seg)]"
    by (metis ns length_Cons upt_conv_Cons zero_less_Suc One_nat_def)
  obtain p0 ps where pix: "np_where_positive seg = p0 # ps"
    and p0: "length p0 = length (positive_coords seg)"
    unfolding np_where_positive_def upt by simp
  have axes: "bbox_axes (p0 # ps) = Inr out"
    unfolding pix [symmetric] out_def np_where_positive_def by (rule bbox_axes_char [OF False])
  have "compute_bbox seg do_count
        = Inr (Some (out @ (if do_count then [int (length (positive_coords seg))] else [])))"
    unfolding compute_bbox_def Let_def pix
    by (simp only: nz axes p0 simp_thms if_False if_True sum.case list.case split: if_splits)
       (simp add: p0)
  moreover have "scan_bbox seg do_count
        = Some (out @ (if do_count then [int (length (positive_coords seg))] else []))"
    using False by (simp add: scan_bbox_def scan_is_where [OF wf] out_def Let_def)
  ultimately show ?thesis
    by simp
qed

theorem compute_bbox_is_exhaustive_scan_witness:
  "length (nd_data \<lparr>nd_shape = [3, 3], nd_data = [0, 1, 1, 0, 1, 0, 0, 0, 0]\<rparr>)
     = prod_list (nd_shape \<lparr>nd_shape = [3, 3], nd_data = [0, 1, 1, 0, 1, 0, 0, 0, 0]\<rparr>)
   \<and> list_all (\<lambda>v. 0 \<le> v) (nd_data \<lparr>nd_shape = [3, 3], nd_data = [0, 1, 1, 0, 1, 0, 0, 0, 0]\<rparr>)
   \<and> compute_bbox \<lparr>nd_shape = [3, 3], nd_data = [0, 1, 1, 0, 1, 0, 0, 0, 0]\<rparr> True
       = Inr (Some [0, 1, 1, 2, 3])
   \<and> scan_bbox \<lparr>nd_shape = [3, 3], nd_data = [0, 1, 1, 0, 1, 0, 0, 0, 0]\<rparr> True
       = Some [0, 1, 1, 2, 3]"
proof -
  have wf: "length (nd_data \<lparr>nd_shape = [3, 3], nd_data = [0, 1, 1, 0, 1, 0, 0, 0, 0]\<rparr>)
     = prod_list (nd_shape \<lparr>nd_shape = [3, 3], nd_data = [0, 1, 1, 0, 1, 0, 0, 0, 0]\<rparr>)"
    by simp
  have mask: "\<forall>v\<in>set (nd_data \<lparr>nd_shape = [3, 3], nd_data = [0, 1, 1, 0, 1, 0, 0, 0, 0]\<rparr>). 0 \<le> v"
    by simp
  have nd: "nd_shape \<lparr>nd_shape = [3, 3], nd_data = [0, 1, 1, 0, 1, 0, 0, 0, 0]\<rparr> \<noteq> []"
    by simp
  have ev: "compute_bbox \<lparr>nd_shape = [3, 3], nd_data = [0, 1, 1, 0, 1, 0, 0, 0, 0]\<rparr> True
       = Inr (Some [0, 1, 1, 2, 3])"
    by code_simp
  from compute_bbox_is_exhaustive_scan [OF wf mask nd, of True] ev
  have "scan_bbox \<lparr>nd_shape = [3, 3], nd_data = [0, 1, 1, 0, 1, 0, 0, 0, 0]\<rparr> True
       = Some [0, 1, 1, 2, 3]"
    by simp
  with ev show ?thesis
    by simp
qed

lemma compute_bbox_empty_mask:
  "compute_bbox \<lparr>nd_shape = [2, 2], nd_data = [0, 0, 0, 0]\<rparr> True = Inr None"
  by code_simp

section \<open>Further properties of the merge and of the repair\<close>

lemma merge_bbox_self: "even (length a) \<Longrightarrow> merge_bbox a a = a"
  by (induction a rule: induct_list012) auto

text \<open>
  Merging a box matrix with itself returns it unchanged (the spec's idempotence, 4.2).
\<close>

lemma merge_idempotent:
  assumes wx: "box_matrix d x"
  shows "\<exists>out. merge_bbox_two_matrices (Some x) (Some x) = Inr out \<and> returned out = Some x"
proof -
  from wx have lx: "\<forall>r\<in>set x. length r = 1 + 2 * d" and dx: "distinct (map hd x)"
    by (auto simp: box_matrix_def list_all_iff)
  have "merged_row x r = r" if r: "r \<in> set x" for r
  proof -
    from r lx have "r \<noteq> []" "even (length (tl r))"
      by auto
    then show ?thesis
      using find_distinct_key [OF dx r] by (simp add: merged_row_def merge_bbox_self)
  qed
  then have "map (merged_row x) x = x"
    by (simp add: map_idI)
  moreover have "filter (\<lambda>r. hd r \<notin> hd ` set x) x = []"
    by (simp add: filter_empty_conv)
  ultimately show ?thesis
    using merge_two_char [OF wx wx] by simp
qed

lemma scan_blank_st_all_blank:
  assumes "\<forall>p\<in>set result. \<not> any_positive p" and "0 \<le> s" and "s \<le> int (length result)"
  shows "scan_blank_st result s (int (length result) - 1) = int (length result)"
  using assms
proof (induction result s "int (length result) - 1" rule: scan_blank_st.induct)
  case (1 result blank_st)
  show ?case
  proof (cases "blank_st \<le> int (length result) - 1")
    case True
    with 1(3) have "nat blank_st < length result"
      by simp
    with 1(2) have blank: "\<not> any_positive (result ! nat blank_st)"
      by simp
    with True 1 show ?thesis
      by (subst scan_blank_st.simps) simp
  next
    case False
    with 1(4) show ?thesis
      by (subst scan_blank_st.simps) simp
  qed
qed

text \<open>
  The part of the blank-slice repair that reports: a stack in which no slice has a
  positive pixel is returned as it is, with the all-zero message printed.
\<close>

lemma blank_repair_reports_all_blank:
  assumes "\<forall>p\<in>set result. \<not> any_positive p"
  shows "blank_repair result = Inr \<lparr>volume = result, warned_all_zero = True\<rparr>"
  using scan_blank_st_all_blank [OF assms, of 0] by (simp add: blank_repair_def Let_def)

end
